theory Spec2Isabelle
  imports Complex_Main "HOL-Library.Word"
begin

unbundle bit_operations_syntax

section \<open>Machine types and protocol constants\<close>

type_synonym u8 = "8 word"
type_synonym u16 = "16 word"
type_synonym u32 = "32 word"
type_synonym u64 = "64 word"

text \<open>
  The header \<^verbatim>\<open>c64u-protocol.h\<close> is not among the sources. The constants whose
  values the specification does not give are parameters of the model.
\<close>

record protocol =
  C64U_LINES_PER_PACKET :: u8
  C64U_MAX_PACKETS_PER_FRAME :: nat
  C64U_FRAME_TIMEOUT_MS :: nat

text \<open>
  Modelled from the spec: \<^verbatim>\<open>C64U_PIXELS_PER_LINE\<close> of the missing header
  \<^verbatim>\<open>c64u-protocol.h\<close>; the pixel format is fixed at 384 pixels per line.
\<close>

definition C64U_PIXELS_PER_LINE :: nat where
  "C64U_PIXELS_PER_LINE = 384"

text \<open>
  Modelled from the spec: \<^verbatim>\<open>C64U_BYTES_PER_LINE\<close> of the missing header; one row of
  a packet is \<^verbatim>\<open>pixels_per_line/2\<close> packed bytes.
\<close>

definition C64U_BYTES_PER_LINE :: nat where
  "C64U_BYTES_PER_LINE = 192"

text \<open>
  Modelled from the spec: \<^verbatim>\<open>C64U_PAL_HEIGHT\<close> and \<^verbatim>\<open>C64U_NTSC_HEIGHT\<close> of the
  missing header; the specification names 288 (PAL) and 240 (NTSC).
\<close>

definition C64U_PAL_HEIGHT :: u32 where
  "C64U_PAL_HEIGHT = 288"

definition C64U_NTSC_HEIGHT :: u32 where
  "C64U_NTSC_HEIGHT = 240"

section \<open>Frame assembly state (c64u-video.c)\<close>

text \<open>
  \<^verbatim>\<open>struct frame_packet\<close> and \<^verbatim>\<open>struct frame_assembly\<close> are declared in the missing
  \<^verbatim>\<open>c64u-types.h\<close>; the fields are those the code reads and writes, typed as the
  locals they are assigned from. The slot array \<^verbatim>\<open>packets\<close> is a list; a zeroed
  table has \<^verbatim>\<open>C64U_MAX_PACKETS_PER_FRAME\<close> zeroed slots.
\<close>

record frame_packet =
  line_num :: u16
  lines_per_packet :: u8
  received :: bool
  packet_data :: "u8 list"

record frame_assembly =
  frame_num :: u16
  start_time :: u64
  received_packets :: u16
  expected_packets :: u16
  packets :: "frame_packet list"

text \<open>A video datagram after the header parse of \<^verbatim>\<open>video_thread_func\<close> (lines 135-141).\<close>

record video_packet =
  seq_num :: u16
  pkt_frame_num :: u16
  line_field :: u16
  pixels_per_line :: u16
  pkt_lines_per_packet :: u8
  bits_per_pixel :: u8
  encoding :: u16
  payload :: "u8 list"

definition last_packet :: "video_packet \<Rightarrow> bool" where
  "last_packet p = (line_field p AND 0x8000 \<noteq> 0)"

definition pkt_line_num :: "video_packet \<Rightarrow> u16" where
  "pkt_line_num p = line_field p AND 0x7FFF"

definition zero_packet :: frame_packet where
  "zero_packet = \<lparr>line_num = 0, lines_per_packet = 0, received = False, packet_data = []\<rparr>"

text \<open>
  \<^verbatim>\<open>init_frame_assembly\<close>: the table is zeroed, then the frame number and the clock
  reading \<^verbatim>\<open>os_gettime_ns()\<close> (the argument \<open>t\<close>) are stored.
\<close>

definition init_frame_assembly :: "protocol \<Rightarrow> u16 \<Rightarrow> u64 \<Rightarrow> frame_assembly" where
  "init_frame_assembly P n t =
     \<lparr>frame_num = n, start_time = t, received_packets = 0, expected_packets = 0,
      packets = replicate (C64U_MAX_PACKETS_PER_FRAME P) zero_packet\<rparr>"

definition is_frame_complete :: "frame_assembly \<Rightarrow> bool" where
  "is_frame_complete f = (0 < received_packets f \<and> received_packets f = expected_packets f)"

text \<open>
  \<^verbatim>\<open>is_frame_timeout\<close>: the elapsed time is an unsigned 64-bit difference, divided
  down to milliseconds; \<open>t\<close> is the clock reading.
\<close>

definition is_frame_timeout :: "protocol \<Rightarrow> frame_assembly \<Rightarrow> u64 \<Rightarrow> bool" where
  "is_frame_timeout P f t =
     (C64U_FRAME_TIMEOUT_MS P < unat ((t - start_time f) div 1000000))"

text \<open>
  The packet index of line 281: both operands are promoted to \<^verbatim>\<open>int\<close>, the quotient
  is stored in a \<^verbatim>\<open>uint16_t\<close>. The divisor has passed the check against
  \<^verbatim>\<open>C64U_LINES_PER_PACKET\<close>, a constant taken to be nonzero.
\<close>

definition packet_index :: "u16 \<Rightarrow> u8 \<Rightarrow> u16" where
  "packet_index l lpp = word_of_nat (unat l div unat lpp)"

definition slot_of :: "video_packet \<Rightarrow> nat" where
  "slot_of p = unat (packet_index (pkt_line_num p) (pkt_lines_per_packet p))"

text \<open>
  Lines 283-291: the slot write. It is reached only inside the bound check of line 282.
\<close>

definition store_packet :: "frame_assembly \<Rightarrow> video_packet \<Rightarrow> frame_assembly" where
  "store_packet f p =
     (let i = slot_of p in
      if \<not> received (packets f ! i)
      then f\<lparr>packets := (packets f)[i := \<lparr>line_num = pkt_line_num p,
                                           lines_per_packet = pkt_lines_per_packet p,
                                           received = True,
                                           packet_data = payload p\<rparr>],
             received_packets := received_packets f + 1\<rparr>
      else f)"

text \<open>Lines 281-291 with the bound check of line 282 around the slot write.\<close>

definition slot_update :: "protocol \<Rightarrow> frame_assembly \<Rightarrow> video_packet \<Rightarrow> frame_assembly" where
  "slot_update P f p =
     (if slot_of p < C64U_MAX_PACKETS_PER_FRAME P then store_packet f p else f)"

section \<open>Colour conversion (c64u-video.c)\<close>

definition vic_colors :: "u32 list" where
  "vic_colors =
     [0xFF000000, 0xFFEFEFEF, 0xFF342F8D, 0xFFCDD46A,
      0xFFA43598, 0xFF42B44C, 0xFFB1292C, 0xFF5DEFEF,
      0xFF204E98, 0xFF00385B, 0xFF6D67D1, 0xFF4A4A4A,
      0xFF7B7B7B, 0xFF93EF9F, 0xFFEF6A6D, 0xFFB2B2B2]"

text \<open>
  A pixel buffer is the list of its 32-bit pixels; its length is the allocation. A store
  beyond the allocation is outside the model (\<open>xs[i := v]\<close> leaves \<open>xs\<close> alone there),
  so statements about stored values assume that the rows fit.

  Lines 78-83: one packed byte, two pixels. \<open>dst\<close> is the offset of \<^verbatim>\<open>dst_line\<close> in
  the back buffer.
\<close>

definition put_pixel_pair :: "nat \<Rightarrow> u8 \<Rightarrow> nat \<Rightarrow> u32 list \<Rightarrow> u32 list" where
  "put_pixel_pair dst pixel_pair x buf =
     (let color1 = pixel_pair AND 0x0F;
          color2 = drop_bit 4 pixel_pair
      in (buf[dst + x * 2 := vic_colors ! unat color1])
             [dst + x * 2 + 1 := vic_colors ! unat color2])"

text \<open>Lines 77-84: the loop over the bytes of one row; \<open>src\<close> is the offset of \<^verbatim>\<open>src_line\<close>.\<close>

definition convert_line :: "nat \<Rightarrow> nat \<Rightarrow> u8 list \<Rightarrow> u32 list \<Rightarrow> u32 list" where
  "convert_line dst src dat buf =
     fold (\<lambda>x b. put_pixel_pair dst (dat ! (src + x)) x b) [0..<C64U_BYTES_PER_LINE] buf"

text \<open>
  Lines 71-85: the loop over the rows of one packet. It stops at the first row at or
  beyond \<^verbatim>\<open>context->height\<close>, which is compared as \<^verbatim>\<open>int\<close>.
\<close>

function convert_lines :: "u32 \<Rightarrow> frame_packet \<Rightarrow> nat \<Rightarrow> u32 list \<Rightarrow> u32 list" where
  "convert_lines h p line buf =
     (if line < unat (lines_per_packet p) \<and> int (unat (line_num p) + line) < sint h
      then convert_lines h p (Suc line)
             (convert_line ((unat (line_num p) + line) * C64U_PIXELS_PER_LINE)
                           (line * C64U_BYTES_PER_LINE) (packet_data p) buf)
      else buf)"
  by pat_completeness auto
termination
  by (relation "measure (\<lambda>(h, p, line, buf). unat (lines_per_packet p) - line)") auto

text \<open>
  \<^verbatim>\<open>assemble_frame_to_buffer\<close>, lines 63-86: the loop over the slots; the buffer
  argument is \<^verbatim>\<open>context->frame_buffer_back\<close> and \<open>h\<close> is \<^verbatim>\<open>context->height\<close>.
\<close>

definition assemble_slot :: "u32 \<Rightarrow> frame_assembly \<Rightarrow> nat \<Rightarrow> u32 list \<Rightarrow> u32 list" where
  "assemble_slot h f i buf =
     (if \<not> received (packets f ! i) then buf else convert_lines h (packets f ! i) 0 buf)"

definition assemble_frame_to_buffer :: "protocol \<Rightarrow> u32 \<Rightarrow> frame_assembly \<Rightarrow> u32 list \<Rightarrow> u32 list" where
  "assemble_frame_to_buffer P h f buf =
     fold (assemble_slot h f) [0..<C64U_MAX_PACKETS_PER_FRAME P] buf"

section \<open>Timing engine (c64u-timing.h, c64u-timing.c)\<close>

text \<open>
  The strategy field holds one of the four enumerators. The \<^verbatim>\<open>double\<close> fields are
  modelled as reals: rounding is not modelled.
\<close>

datatype c64u_timing_strategy_t =
  C64U_TIMING_PASSTHROUGH | C64U_TIMING_ADAPTIVE | C64U_TIMING_INTERPOLATION | C64U_TIMING_VSYNC

record interpolation_state =
  frames :: "u32 list option list"
  timestamps :: "u64 list"
  write_index :: u8
  read_index :: u8
  buffer_ready :: bool

record c64u_timing_state =
  strategy :: c64u_timing_strategy_t
  target_fps :: real
  source_fps :: real
  last_obs_frame_time :: u64
  last_c64_frame_time :: u64
  obs_frame_interval_ns :: u64
  c64_frame_interval_ns :: u64
  frame_debt :: real
  frames_delivered :: u32
  frames_received :: u32
  interpolation :: interpolation_state
  frames_dropped :: u32
  frames_duplicated :: u32
  frames_interpolated :: u32

section \<open>The source context (fields used by c64u-video.c, c64u-source.c, c64u-timing.c)\<close>

text \<open>
  \<^verbatim>\<open>struct c64u_source\<close> is declared in the missing \<^verbatim>\<open>c64u-types.h\<close>; the record has
  the fields the three source files use, without the sockets' addresses, the thread
  handles and the settings strings. A null pointer is \<open>None\<close>; the two frame buffers
  are never null in a context that \<^verbatim>\<open>c64u_create\<close> returned. The field
  \<open>last_video_log\<close> is the function-local static of \<^verbatim>\<open>video_thread_func\<close>; the
  other statics only feed log lines and are left out.
\<close>

record c64u_source =
  width :: u32
  height :: u32
  frame_buffer_front :: "u32 list"
  frame_buffer_back :: "u32 list"
  frame_ready :: bool
  buffer_swap_pending :: bool
  current_frame :: frame_assembly
  last_completed_frame :: u16
  frame_drops :: u32
  packet_drops :: u32
  frames_expected :: u32
  frames_captured :: u32
  frames_delivered_to_obs :: u32
  frames_completed :: u32
  buffer_swaps :: u32
  total_pipeline_latency :: u64
  last_capture_time :: u64
  detected_frame_height :: u32
  format_detected :: bool
  expected_fps :: real
  streaming :: bool
  thread_active :: bool
  video_thread_active :: bool
  audio_thread_active :: bool
  video_socket_open :: bool
  audio_socket_open :: bool
  timing :: "c64u_timing_state option"
  timing_initialized :: bool
  last_video_log :: u64

section \<open>The receive loop body (video_thread_func)\<close>

text \<open>
  What one pass through the loop body obtains from outside: the clock readings of
  \<^verbatim>\<open>os_gettime_ns()\<close>, one field per call site, and whether each
  \<^verbatim>\<open>pthread_mutex_lock\<close> returned 0.
\<close>

record video_env =
  t_now :: u64
  t_capture :: u64
  t_timeout :: u64
  t_latency_prev :: u64
  t_start :: u64
  t_latency :: u64
  t_reset :: u64
  assembly_lock :: bool
  frame_lock_prev :: bool
  frame_lock :: bool

text \<open>
  The step returns, next to the new context, the list of what it did to whole frames:
  \<open>Assembled n\<close> for a call of \<^verbatim>\<open>assemble_frame_to_buffer\<close> and
  \<^verbatim>\<open>swap_frame_buffers\<close> on the table of frame number \<open>n\<close>, \<open>Dropped n\<close> for an
  increment of \<^verbatim>\<open>frame_drops\<close> on the table of frame number \<open>n\<close>.
\<close>

datatype video_event = Assembled u16 | Dropped u16

text \<open>
  Lines 155-222, as far as the context is concerned: every five seconds the diagnostic
  counters are reset.
\<close>

definition video_statistics :: "c64u_source \<Rightarrow> u64 \<Rightarrow> c64u_source" where
  "video_statistics s now =
     (let s1 = (if last_video_log s = 0 then s\<lparr>last_video_log := now\<rparr> else s) in
      if 5000000000 \<le> now - last_video_log s1
      then s1\<lparr>frames_expected := 0, frames_captured := 0, frames_delivered_to_obs := 0,
              frames_completed := 0, buffer_swaps := 0, total_pipeline_latency := 0,
              last_video_log := now\<rparr>
      else s1)"

text \<open>Lines 225-226: the format check.\<close>

definition valid_format :: "protocol \<Rightarrow> video_packet \<Rightarrow> bool" where
  "valid_format P p =
     (\<not> (pkt_lines_per_packet p \<noteq> C64U_LINES_PER_PACKET P
         \<or> unat (pixels_per_line p) \<noteq> C64U_PIXELS_PER_LINE
         \<or> bits_per_pixel p \<noteq> 4))"

text \<open>\<^verbatim>\<open>swap_frame_buffers\<close>.\<close>

definition swap_frame_buffers :: "c64u_source \<Rightarrow> c64u_source" where
  "swap_frame_buffers s =
     s\<lparr>frame_buffer_front := frame_buffer_back s,
       frame_buffer_back := frame_buffer_front s,
       frame_ready := True,
       buffer_swap_pending := False\<rparr>"

text \<open>
  Lines 254-264 and 334-343: the body of the guard on \<^verbatim>\<open>last_completed_frame\<close>,
  the same on both paths (line 344 counts a static).
\<close>

definition assemble_and_swap :: "protocol \<Rightarrow> c64u_source \<Rightarrow> u64 \<Rightarrow> u64 \<Rightarrow> c64u_source" where
  "assemble_and_swap P s capture_time t =
     (let s1 = s\<lparr>frame_buffer_back :=
                   assemble_frame_to_buffer P (height s) (current_frame s) (frame_buffer_back s)\<rparr>;
          s2 = swap_frame_buffers s1
      in s2\<lparr>last_completed_frame := frame_num (current_frame s2),
            frames_completed := frames_completed s2 + 1,
            buffer_swaps := buffer_swaps s2 + 1,
            frames_delivered_to_obs := frames_delivered_to_obs s2 + 1,
            total_pipeline_latency := total_pipeline_latency s2 + (t - capture_time)\<rparr>)"

text \<open>Lines 246-274: the previous frame is finished, counted as dropped, or abandoned.\<close>

definition finalize_previous ::
  "protocol \<Rightarrow> c64u_source \<Rightarrow> video_env \<Rightarrow> video_event list \<times> c64u_source" where
  "finalize_previous P s e =
     (if 0 < received_packets (current_frame s) then
        if is_frame_complete (current_frame s) \<or> is_frame_timeout P (current_frame s) (t_timeout e)
        then
          if is_frame_complete (current_frame s) then
            if frame_lock_prev e then
              if last_completed_frame s \<noteq> frame_num (current_frame s)
              then ([Assembled (frame_num (current_frame s))],
                    assemble_and_swap P s (t_capture e) (t_latency_prev e))
              else ([], s)
            else ([], s)
          else ([Dropped (frame_num (current_frame s))], s\<lparr>frame_drops := frame_drops s + 1\<rparr>)
        else ([], s)
      else ([], s))"

text \<open>Lines 238-278: a packet of another frame number starts a new table.\<close>

definition new_frame ::
  "protocol \<Rightarrow> c64u_source \<Rightarrow> video_packet \<Rightarrow> video_env \<Rightarrow> video_event list \<times> c64u_source" where
  "new_frame P s p e =
     (if frame_num (current_frame s) \<noteq> pkt_frame_num p then
        let s1 = (if 0 < last_capture_time s
                  then s\<lparr>frames_expected := frames_expected s + 1\<rparr> else s);
            s2 = s1\<lparr>frames_captured := frames_captured s1 + 1,
                    last_capture_time := t_capture e\<rparr>;
            (evs, s3) = finalize_previous P s2 e
        in (evs, s3\<lparr>current_frame := init_frame_assembly P (pkt_frame_num p) (t_start e)\<rparr>)
      else ([], s))"

text \<open>Lines 298-326: format detection from the height the last packet implies.\<close>

definition rate_for_height :: "u32 \<Rightarrow> real" where
  "rate_for_height frame_height =
     (if frame_height = C64U_PAL_HEIGHT then 50
      else if frame_height = C64U_NTSC_HEIGHT then 60
      else if frame_height \<le> 250 then 60 else 50)"

definition detect_format :: "c64u_source \<Rightarrow> u32 \<Rightarrow> c64u_source" where
  "detect_format s frame_height =
     (if \<not> format_detected s \<or> detected_frame_height s \<noteq> frame_height then
        let s1 = s\<lparr>detected_frame_height := frame_height,
                   format_detected := True,
                   expected_fps := rate_for_height frame_height\<rparr>
        in if height s1 \<noteq> frame_height
           then s1\<lparr>height := frame_height, width := word_of_nat C64U_PIXELS_PER_LINE\<rparr>
           else s1
      else s)"

definition frame_height_of :: "video_packet \<Rightarrow> u32" where
  "frame_height_of p = ucast (pkt_line_num p) + ucast (pkt_lines_per_packet p)"

text \<open>Lines 294-327.\<close>

definition last_packet_update :: "c64u_source \<Rightarrow> video_packet \<Rightarrow> c64u_source" where
  "last_packet_update s p =
     (if last_packet p \<and> expected_packets (current_frame s) = 0 then
        detect_format
          (s\<lparr>current_frame := (current_frame s)
               \<lparr>expected_packets :=
                  packet_index (pkt_line_num p) (pkt_lines_per_packet p) + 1\<rparr>\<rparr>)
          (frame_height_of p)
      else s)"

text \<open>Lines 330-351: completion inside the frame, then the reset with frame number 0.\<close>

definition complete_in_frame ::
  "protocol \<Rightarrow> c64u_source \<Rightarrow> video_env \<Rightarrow> video_event list \<times> c64u_source" where
  "complete_in_frame P s e =
     (if is_frame_complete (current_frame s) then
        let (evs, s1) =
              (if frame_lock e then
                 if last_completed_frame s \<noteq> frame_num (current_frame s)
                 then ([Assembled (frame_num (current_frame s))],
                       assemble_and_swap P s (t_capture e) (t_latency e))
                 else ([], s)
               else ([], s))
        in (evs, s1\<lparr>current_frame := init_frame_assembly P 0 (t_reset e)\<rparr>)
      else ([], s))"

text \<open>Lines 283-327: what the body of the bound check does before it tests completion.\<close>

definition record_packet :: "c64u_source \<Rightarrow> video_packet \<Rightarrow> c64u_source" where
  "record_packet s p =
     (let s1 = s\<lparr>current_frame := store_packet (current_frame s) p\<rparr>
      in last_packet_update s1 p)"

text \<open>Lines 281-352.\<close>

definition accumulate ::
  "protocol \<Rightarrow> c64u_source \<Rightarrow> video_packet \<Rightarrow> video_env \<Rightarrow> video_event list \<times> c64u_source" where
  "accumulate P s p e =
     (if slot_of p < C64U_MAX_PACKETS_PER_FRAME P
      then complete_in_frame P (record_packet s p) e
      else ([], s))"

text \<open>
  The loop body for one datagram of \<^verbatim>\<open>C64U_VIDEO_PACKET_SIZE\<close> bytes, from line 155
  to line 355.
\<close>

definition process_packet ::
  "protocol \<Rightarrow> c64u_source \<Rightarrow> video_packet \<Rightarrow> video_env \<Rightarrow> video_event list \<times> c64u_source" where
  "process_packet P s p e =
     (let s0 = video_statistics s (t_now e) in
      if \<not> valid_format P p then ([], s0)
      else if assembly_lock e then
        let (evs1, s1) = new_frame P s0 p e;
            (evs2, s2) = accumulate P s1 p e
        in (evs1 @ evs2, s2)
      else ([], s0))"

text \<open>The loop over a sequence of datagrams, each with what its pass obtains from outside.\<close>

fun run_packets ::
  "protocol \<Rightarrow> c64u_source \<Rightarrow> (video_packet \<times> video_env) list \<Rightarrow> video_event list \<times> c64u_source" where
  "run_packets P s [] = ([], s)"
| "run_packets P s ((p, e) # rest) =
     (let (evs1, s1) = process_packet P s p e;
          (evs2, s2) = run_packets P s1 rest
      in (evs1 @ evs2, s2))"

section \<open>Timing operations (c64u-timing.c)\<close>

text \<open>
  \<^verbatim>\<open>c64u_timing_init\<close>. The argument \<open>alloc\<close> gives the result of the \<open>i\<close>-th call of
  \<^verbatim>\<open>bmalloc\<close>: \<open>None\<close> for a null pointer, otherwise the block. The conversion of
  the interval to \<^verbatim>\<open>uint64_t\<close> truncates.
\<close>

definition zero_interpolation :: interpolation_state where
  "zero_interpolation =
     \<lparr>frames = [None, None, None], timestamps = [0, 0, 0],
      write_index = 0, read_index = 0, buffer_ready = False\<rparr>"

definition c64u_timing_init ::
  "c64u_timing_strategy_t \<Rightarrow> real \<Rightarrow> real \<Rightarrow> (nat \<Rightarrow> u32 list option) \<Rightarrow> c64u_timing_state" where
  "c64u_timing_init strat tfps sfps alloc =
     (let t = \<lparr>strategy = strat, target_fps = tfps, source_fps = sfps,
               last_obs_frame_time = 0, last_c64_frame_time = 0,
               obs_frame_interval_ns = word_of_int \<lfloor>1000000000 / tfps\<rfloor>,
               c64_frame_interval_ns = word_of_int \<lfloor>1000000000 / sfps\<rfloor>,
               frame_debt = 0, frames_delivered = 0, frames_received = 0,
               interpolation = zero_interpolation,
               frames_dropped = 0, frames_duplicated = 0, frames_interpolated = 0\<rparr>
      in if strat = C64U_TIMING_INTERPOLATION then
           if alloc 0 \<noteq> None \<and> alloc 1 \<noteq> None \<and> alloc 2 \<noteq> None
           then t\<lparr>interpolation := zero_interpolation\<lparr>frames := [alloc 0, alloc 1, alloc 2]\<rparr>\<rparr>
           else t\<lparr>strategy := C64U_TIMING_ADAPTIVE\<rparr>
         else t)"

definition c64u_timing_on_c64_frame_received :: "c64u_timing_state \<Rightarrow> u64 \<Rightarrow> c64u_timing_state" where
  "c64u_timing_on_c64_frame_received t now =
     t\<lparr>frames_received := frames_received t + 1, last_c64_frame_time := now\<rparr>"

text \<open>
  Lines 86-116, the body shared by the three strategies other than passthrough. The
  function returns its result and the timing state it leaves.
\<close>

definition should_deliver_paced :: "c64u_timing_state \<Rightarrow> u64 \<Rightarrow> bool \<times> c64u_timing_state" where
  "should_deliver_paced t now =
     (if frames_delivered t < 10 then (True, t)
      else if last_obs_frame_time t = 0 \<or> frames_received t < 5
      then (True, t\<lparr>last_obs_frame_time := now\<rparr>)
      else
        let obs_elapsed = now - last_obs_frame_time t;
            min_interval = obs_frame_interval_ns t div 2
        in if min_interval \<le> obs_elapsed then (True, t)
           else
             let expected_obs_frames = obs_elapsed div obs_frame_interval_ns t;
                 should_deliver = ((ucast (frames_delivered t) :: u64) \<le> expected_obs_frames);
                 t1 = (if 10 < frames_received t \<and> obs_frame_interval_ns t < obs_elapsed
                       then
                         let c64_rate = real (unat (frames_received t)) * 1000000000
                                          / real (unat obs_elapsed);
                             obs_rate = target_fps t
                         in t\<lparr>frame_debt := frame_debt t + ((c64_rate / obs_rate) - 1)\<rparr>
                       else t)
             in (should_deliver, t1))"

definition c64u_timing_should_deliver_frame ::
  "c64u_timing_state \<Rightarrow> u64 \<Rightarrow> bool \<times> c64u_timing_state" where
  "c64u_timing_should_deliver_frame t now =
     (case strategy t of
        C64U_TIMING_PASSTHROUGH \<Rightarrow> (True, t)
      | C64U_TIMING_ADAPTIVE \<Rightarrow> should_deliver_paced t now
      | C64U_TIMING_INTERPOLATION \<Rightarrow> should_deliver_paced t now
      | C64U_TIMING_VSYNC \<Rightarrow> should_deliver_paced t now)"

definition c64u_timing_on_obs_frame_delivered :: "c64u_timing_state \<Rightarrow> u64 \<Rightarrow> c64u_timing_state" where
  "c64u_timing_on_obs_frame_delivered t now =
     (let t1 = t\<lparr>frames_delivered := frames_delivered t + 1\<rparr>;
          t2 = (if 0 < last_obs_frame_time t1 then
                  let interval = now - last_obs_frame_time t1
                  in if interval < obs_frame_interval_ns t1 div 2
                     then t1\<lparr>frames_duplicated := frames_duplicated t1 + 1\<rparr> else t1
                else t1)
      in t2\<lparr>last_obs_frame_time := now\<rparr>)"

text \<open>
  \<^verbatim>\<open>c64u_timing_get_frame_for_obs\<close>. The result stands for the pointer returned:
  \<open>None\<close> for a null pointer, otherwise the pixels it points to. The copy into an
  interpolation buffer takes \<^verbatim>\<open>width * height * 4\<close> bytes of the front buffer.
\<close>

definition frame_pixels :: "c64u_source \<Rightarrow> nat" where
  "frame_pixels s = unat (width s * height s * 4) div 4"

definition c64u_timing_get_frame_for_obs ::
  "c64u_timing_state \<Rightarrow> c64u_source \<Rightarrow> u64 \<Rightarrow> u32 list option \<times> c64u_timing_state" where
  "c64u_timing_get_frame_for_obs t s now =
     (case strategy t of
        C64U_TIMING_PASSTHROUGH \<Rightarrow> (Some (frame_buffer_front s), t)
      | C64U_TIMING_ADAPTIVE \<Rightarrow>
          (Some (frame_buffer_front s),
           if 2 < frame_debt t
           then t\<lparr>frame_debt := frame_debt t - 1, frames_dropped := frames_dropped t + 1\<rparr>
           else if frame_debt t < - 2
           then t\<lparr>frame_debt := frame_debt t + 1, frames_duplicated := frames_duplicated t + 1\<rparr>
           else t)
      | C64U_TIMING_INTERPOLATION \<Rightarrow>
          (let ip = interpolation t;
               next_write = (unat (write_index ip) + 1) mod 3;
               ip1 = (case frames ip ! next_write of
                        None \<Rightarrow> ip
                      | Some old \<Rightarrow>
                          ip\<lparr>frames := (frames ip)
                                 [next_write :=
                                    Some (take (frame_pixels s) (frame_buffer_front s)
                                          @ drop (frame_pixels s) old)],
                             timestamps := (timestamps ip)[next_write := now],
                             write_index := word_of_nat next_write,
                             buffer_ready := True\<rparr>);
               t1 = t\<lparr>interpolation := ip1\<rparr>
           in if buffer_ready ip1
              then (frames ip1 ! unat (write_index ip1), t1)
              else (Some (frame_buffer_front s), t1))
      | C64U_TIMING_VSYNC \<Rightarrow> (Some (frame_buffer_front s), t))"

text \<open>
  \<^verbatim>\<open>c64u_render\<close>, lines 513-519: one poll of the timing engine. The result is the
  answer of \<^verbatim>\<open>c64u_timing_should_deliver_frame\<close>, the frame chosen, and the
  timing state.
\<close>

definition timing_poll ::
  "c64u_timing_state \<Rightarrow> c64u_source \<Rightarrow> u64 \<Rightarrow> bool \<times> u32 list option \<times> c64u_timing_state" where
  "timing_poll t s render_start =
     (let (d, t1) = c64u_timing_should_deliver_frame t render_start in
      if d then
        let (frame_to_render, t2) = c64u_timing_get_frame_for_obs t1 s render_start
        in if frame_to_render \<noteq> None
           then (d, frame_to_render, c64u_timing_on_obs_frame_delivered t2 render_start)
           else (d, frame_to_render, t2)
      else (d, None, t1))"

text \<open>
  What reaches the timing state: a poll by the renderer, with the context it sees, or a
  source frame reported by \<^verbatim>\<open>c64u_timing_on_c64_frame_received\<close>.
\<close>

datatype timing_event = Poll u64 c64u_source | SourceFrame u64

fun timing_step :: "c64u_timing_state \<Rightarrow> timing_event \<Rightarrow> bool list \<times> c64u_timing_state" where
  "timing_step t (Poll now s) = (case timing_poll t s now of (d, fr, t1) \<Rightarrow> ([d], t1))"
| "timing_step t (SourceFrame now) = ([], c64u_timing_on_c64_frame_received t now)"

text \<open>The answers of the polls of a run, in order, and the timing state after it.\<close>

fun timing_run :: "c64u_timing_state \<Rightarrow> timing_event list \<Rightarrow> bool list \<times> c64u_timing_state" where
  "timing_run t [] = ([], t)"
| "timing_run t (ev # rest) =
     (let (ds1, t1) = timing_step t ev;
          (ds2, t2) = timing_run t1 rest
      in (ds1 @ ds2, t2))"

section \<open>Stopping the stream (c64u-source.c)\<close>

text \<open>
  \<^verbatim>\<open>c64u_stop_streaming\<close> for a non-null context. The two arguments say whether each
  \<^verbatim>\<open>pthread_mutex_lock\<close> returned 0. The control commands and the joins change no
  field of the record. Next to the context the function returns what it did with the
  locks and under them, in order.
\<close>

datatype stop_action =
  LockFrameMutex | ZeroFrameBuffers | UnlockFrameMutex
| LockAssemblyMutex | ResetAssembly | UnlockAssemblyMutex

definition zero_pixels :: "nat \<Rightarrow> u32 list \<Rightarrow> u32 list" where
  "zero_pixels n buf = replicate (min n (length buf)) 0 @ drop n buf"

text \<open>
  The \<^verbatim>\<open>memset\<close> of line 473 zeroes the table: all slots are zeroed, the frame
  number, the start time and the counts are 0.
\<close>

definition zero_frame_assembly :: "frame_assembly \<Rightarrow> frame_assembly" where
  "zero_frame_assembly f =
     \<lparr>frame_num = 0, start_time = 0, received_packets = 0, expected_packets = 0,
      packets = replicate (length (packets f)) zero_packet\<rparr>"

definition stop_clear_buffers :: "c64u_source \<Rightarrow> bool \<Rightarrow> stop_action list \<times> c64u_source" where
  "stop_clear_buffers s locked =
     (if locked then
        let s1 = s\<lparr>frame_ready := False, buffer_swap_pending := False\<rparr>;
            frame_size = frame_pixels s1
        in ([LockFrameMutex, ZeroFrameBuffers, UnlockFrameMutex],
            s1\<lparr>frame_buffer_front := zero_pixels frame_size (frame_buffer_front s1),
               frame_buffer_back := zero_pixels frame_size (frame_buffer_back s1)\<rparr>)
      else ([], s))"

definition stop_reset_assembly :: "c64u_source \<Rightarrow> bool \<Rightarrow> stop_action list \<times> c64u_source" where
  "stop_reset_assembly s locked =
     (if locked then
        ([LockAssemblyMutex, ResetAssembly, UnlockAssemblyMutex],
         s\<lparr>current_frame := zero_frame_assembly (current_frame s),
           last_completed_frame := 0,
           frame_drops := 0,
           packet_drops := 0,
           frames_expected := 0,
           frames_captured := 0,
           frames_delivered_to_obs := 0,
           frames_completed := 0\<rparr>)
      else ([], s))"

definition c64u_stop_streaming :: "c64u_source \<Rightarrow> bool \<Rightarrow> bool \<Rightarrow> stop_action list \<times> c64u_source" where
  "c64u_stop_streaming s frame_locked assembly_locked =
     (if \<not> streaming s then ([], s)
      else
        let s1 = s\<lparr>streaming := False, thread_active := False,
                   video_socket_open := False, audio_socket_open := False,
                   video_thread_active := False, audio_thread_active := False\<rparr>;
            (a1, s2) = stop_clear_buffers s1 frame_locked;
            (a2, s3) = stop_reset_assembly s2 assembly_locked
        in (a1 @ a2, s3))"

section \<open>Creating and starting a source (c64u-source.c)\<close>

text \<open>
  Modelled from the spec: \<^verbatim>\<open>C64U_PAL_WIDTH\<close> of the missing header; frames are 384
  pixels wide.
\<close>

definition C64U_PAL_WIDTH :: u32 where
  "C64U_PAL_WIDTH = 384"

text \<open>
  \<^verbatim>\<open>c64u_create\<close>, lines 102-203, when every allocation succeeds: the context is
  zeroed by \<^verbatim>\<open>bzalloc\<close>, both buffers are allocated for a PAL frame and zeroed.
\<close>

definition c64u_create :: "protocol \<Rightarrow> c64u_source" where
  "c64u_create P =
     \<lparr>width = C64U_PAL_WIDTH,
      height = C64U_PAL_HEIGHT,
      frame_buffer_front = replicate (unat (C64U_PAL_WIDTH * C64U_PAL_HEIGHT * 4) div 4) 0,
      frame_buffer_back = replicate (unat (C64U_PAL_WIDTH * C64U_PAL_HEIGHT * 4) div 4) 0,
      frame_ready = False,
      buffer_swap_pending = False,
      current_frame = init_frame_assembly P 0 0,
      last_completed_frame = 0,
      frame_drops = 0,
      packet_drops = 0,
      frames_expected = 0,
      frames_captured = 0,
      frames_delivered_to_obs = 0,
      frames_completed = 0,
      buffer_swaps = 0,
      total_pipeline_latency = 0,
      last_capture_time = 0,
      detected_frame_height = 0,
      format_detected = False,
      expected_fps = 50125 / 1000,
      streaming = False,
      thread_active = False,
      video_thread_active = False,
      audio_thread_active = False,
      video_socket_open = False,
      audio_socket_open = False,
      timing = None,
      timing_initialized = False,
      last_video_log = 0\<rparr>"

text \<open>
  \<^verbatim>\<open>c64u_start_streaming\<close> for a non-null context. The arguments say whether the two
  sockets and the two threads could be created.
\<close>

definition c64u_start_streaming :: "c64u_source \<Rightarrow> bool \<Rightarrow> bool \<Rightarrow> bool \<Rightarrow> bool \<Rightarrow> c64u_source" where
  "c64u_start_streaming s video_sock audio_sock video_thr audio_thr =
     (if streaming s then s
      else if \<not> video_sock \<or> \<not> audio_sock
      then s\<lparr>video_socket_open := False, audio_socket_open := False\<rparr>
      else
        let s1 = s\<lparr>video_socket_open := True, audio_socket_open := True,
                   thread_active := True, streaming := True,
                   video_thread_active := False, audio_thread_active := False\<rparr>
        in if \<not> video_thr
           then s1\<lparr>streaming := False, thread_active := False,
                   video_socket_open := False, audio_socket_open := False\<rparr>
           else
             let s2 = s1\<lparr>video_thread_active := True\<rparr>
             in if \<not> audio_thr
                then s2\<lparr>streaming := False, thread_active := False,
                        video_thread_active := False,
                        video_socket_open := False, audio_socket_open := False\<rparr>
                else s2\<lparr>audio_thread_active := True\<rparr>)"

section \<open>Concrete inputs for the instances\<close>

text \<open>
  A protocol instance with four lines per packet, 72 slots (288 lines) and a budget of
  100 ms, and packets and clock readings for it.
\<close>

definition demo_protocol :: protocol where
  "demo_protocol =
     \<lparr>C64U_LINES_PER_PACKET = 4, C64U_MAX_PACKETS_PER_FRAME = 72, C64U_FRAME_TIMEOUT_MS = 100\<rparr>"

definition demo_packet :: "u16 \<Rightarrow> u16 \<Rightarrow> video_packet" where
  "demo_packet n lf =
     \<lparr>seq_num = 0, pkt_frame_num = n, line_field = lf, pixels_per_line = 384,
      pkt_lines_per_packet = 4, bits_per_pixel = 4, encoding = 0,
      payload = replicate 768 0x21\<rparr>"

definition demo_env :: "u64 \<Rightarrow> video_env" where
  "demo_env t =
     \<lparr>t_now = t, t_capture = t + 1, t_timeout = t + 2, t_latency_prev = t + 3, t_start = t + 4,
      t_latency = t + 5, t_reset = t + 6,
      assembly_lock = True, frame_lock_prev = True, frame_lock = True\<rparr>"

definition demo_source :: c64u_source where
  "demo_source = c64u_start_streaming (c64u_create demo_protocol) True True True True"


text \<open>
  The started source after the one-packet frame 7 was recorded, before the completion
  test, and after the whole pass through the loop body.
\<close>

definition demo_recorded :: c64u_source where
  "demo_recorded =
     record_packet
       (snd (new_frame demo_protocol (video_statistics demo_source 1000)
               (demo_packet 7 0x8000) (demo_env 1000)))
       (demo_packet 7 0x8000)"

definition demo_reset :: c64u_source where
  "demo_reset = snd (process_packet demo_protocol demo_source (demo_packet 7 0x8000) (demo_env 1000))"

text \<open>
  A timing state of the adaptive strategy for 50 Hz on both sides, as initialised and
  after twelve deliveries and twenty source frames, the last delivery at 1000 ns.
\<close>

definition demo_timing :: c64u_timing_state where
  "demo_timing = c64u_timing_init C64U_TIMING_ADAPTIVE 50 50 (\<lambda>i. None)"

definition demo_timing_running :: c64u_timing_state where
  "demo_timing_running =
     demo_timing\<lparr>frames_delivered := 12, frames_received := 20, last_obs_frame_time := 1000\<rparr>"

section \<open>Rendering (c64u-source.c)\<close>

text \<open>
  \<^verbatim>\<open>c64u_init_timing_system\<close> when \<^verbatim>\<open>bzalloc\<close> succeeds. The strategy read from
  the settings, the frame rate \<^verbatim>\<open>c64u_detect_obs_fps\<close> returns and the results of
  \<^verbatim>\<open>bmalloc\<close> are arguments.
\<close>

definition c64u_init_timing_system ::
  "c64u_source \<Rightarrow> c64u_timing_strategy_t \<Rightarrow> real \<Rightarrow> (nat \<Rightarrow> u32 list option) \<Rightarrow> c64u_source" where
  "c64u_init_timing_system s strat obs_fps alloc =
     (if timing_initialized s \<or> \<not> format_detected s then s
      else s\<lparr>timing := Some (c64u_timing_init strat obs_fps (expected_fps s) alloc),
             timing_initialized := True\<rparr>)"

text \<open>
  \<^verbatim>\<open>c64u_render\<close>, lines 507-528: the choice of the frame to render. The result is
  \<open>None\<close> when no frame is rendered (the coloured background is drawn instead),
  otherwise the pixels handed to the texture.
\<close>

definition c64u_render_poll :: "c64u_source \<Rightarrow> u64 \<Rightarrow> u32 list option \<times> c64u_source" where
  "c64u_render_poll s render_start =
     (if streaming s \<and> frame_ready s then
        case timing s of
          None \<Rightarrow> (Some (frame_buffer_front s), s)
        | Some t \<Rightarrow>
            if timing_initialized s \<and> strategy t \<noteq> C64U_TIMING_PASSTHROUGH then
              case timing_poll t s render_start of
                (d, frame_to_render, t1) \<Rightarrow>
                  (if frame_to_render = None then Some (frame_buffer_front s) else frame_to_render,
                   s\<lparr>timing := Some t1\<rparr>)
            else (Some (frame_buffer_front s), s)
      else (None, s))"

text \<open>
  The started source after a frame 1 of two packets (lines 0 to 7) and a frame 2 of
  one packet (lines 0 to 3); then with the timing engine initialised for the adaptive
  strategy at 50 Hz and two render polls 1000 ns apart.
\<close>

definition demo_shrunk :: c64u_source where
  "demo_shrunk =
     snd (run_packets demo_protocol demo_source
            [(demo_packet 1 0, demo_env 20000000),
             (demo_packet 1 0x8004, demo_env 20100000),
             (demo_packet 2 0x8000, demo_env 40000000)])"

definition demo_rendered :: c64u_source where
  "demo_rendered =
     snd (c64u_render_poll
            (snd (c64u_render_poll
                    (c64u_init_timing_system demo_shrunk C64U_TIMING_ADAPTIVE 50 (\<lambda>i. None))
                    50000000))
            50001000)"

section \<open>Vocabulary of the statements\<close>

text \<open>The frame numbers a list of events assembled, and those it counted as dropped.\<close>

fun assembled_frames :: "video_event list \<Rightarrow> u16 list" where
  "assembled_frames [] = []"
| "assembled_frames (Assembled n # evs) = n # assembled_frames evs"
| "assembled_frames (Dropped n # evs) = assembled_frames evs"

fun dropped_frames :: "video_event list \<Rightarrow> u16 list" where
  "dropped_frames [] = []"
| "dropped_frames (Assembled n # evs) = dropped_frames evs"
| "dropped_frames (Dropped n # evs) = n # dropped_frames evs"




text \<open>
  What the guard on \<^verbatim>\<open>last_completed_frame\<close> gives for a list of events that leads
  from the value \<open>lc\<close> of that field to the value \<open>lc'\<close>: no frame number is
  assembled twice in a row, the first one assembled differs from \<open>lc\<close>, and \<open>lc'\<close> is
  the last one assembled (or \<open>lc\<close> when none was).
\<close>

definition guard_respected :: "u16 \<Rightarrow> video_event list \<Rightarrow> u16 \<Rightarrow> bool" where
  "guard_respected lc evs lc' =
     (distinct_adj (lc # assembled_frames evs) \<and> lc' = last (lc # assembled_frames evs))"

text \<open>
  The pass for packet \<open>p\<close> finds a table to count as dropped: the packet is accepted,
  it belongs to another frame number, and the live table holds at least one packet,
  is not complete and is older than the budget at the clock reading of
  \<^verbatim>\<open>is_frame_timeout\<close>.
\<close>

definition counts_drop :: "protocol \<Rightarrow> c64u_source \<Rightarrow> video_packet \<Rightarrow> video_env \<Rightarrow> bool" where
  "counts_drop P s p e =
     (valid_format P p \<and> assembly_lock e
      \<and> frame_num (current_frame s) \<noteq> pkt_frame_num p
      \<and> 0 < received_packets (current_frame s)
      \<and> \<not> is_frame_complete (current_frame s)
      \<and> is_frame_timeout P (current_frame s) (t_timeout e))"

section \<open>Properties of frame assembly\<close>

subsection \<open>Packet indices\<close>

lemma pkt_line_num_le: "unat (pkt_line_num p) \<le> 32767"
proof -
  have "pkt_line_num p \<le> 0x7FFF"
    unfolding pkt_line_num_def by (rule word_and_le1)
  then show ?thesis by (simp add: word_le_nat_alt)
qed

lemma unat_packet_index:
  "unat (packet_index (pkt_line_num p) lpp) = unat (pkt_line_num p) div unat lpp"
proof -
  have "unat (pkt_line_num p) div unat lpp \<le> 32767"
    using pkt_line_num_le [of p] div_le_dividend [of "unat (pkt_line_num p)" "unat lpp"] by linarith
  then show ?thesis
    unfolding packet_index_def by (simp add: unat_of_nat)
qed

lemma packet_index_succ_nonzero:
  "packet_index (pkt_line_num p) lpp + 1 \<noteq> 0"
proof -
  have "unat (packet_index (pkt_line_num p) lpp) \<le> 32767"
    using pkt_line_num_le [of p] div_le_dividend [of "unat (pkt_line_num p)" "unat lpp"]
    unfolding unat_packet_index by linarith
  then have "unat (packet_index (pkt_line_num p) lpp + 1) = unat (packet_index (pkt_line_num p) lpp) + 1"
    by (simp add: unat_word_ariths)
  then show ?thesis by (metis Suc_eq_plus1 nat.simps(3) unat_0)
qed

lemma slot_of_eq: "slot_of p = unat (pkt_line_num p) div unat (pkt_lines_per_packet p)"
  by (simp add: slot_of_def unat_packet_index)

subsection \<open>The expected packet count\<close>

lemma store_packet_expected [simp]:
  "expected_packets (store_packet f p) = expected_packets f"
  by (simp add: store_packet_def Let_def)

lemma detect_format_current_frame [simp]:
  "current_frame (detect_format s h) = current_frame s"
  by (simp add: detect_format_def Let_def)

lemma record_packet_expected:
  "expected_packets (current_frame (record_packet s p)) =
     (if last_packet p \<and> expected_packets (current_frame s) = 0
      then packet_index (pkt_line_num p) (pkt_lines_per_packet p) + 1
      else expected_packets (current_frame s))"
  by (simp add: record_packet_def last_packet_update_def Let_def)

lemma record_packet_expected_kept:
  "expected_packets (current_frame s) \<noteq> 0 \<Longrightarrow>
   expected_packets (current_frame (foldl record_packet s ps)) = expected_packets (current_frame s)"
  by (induction ps arbitrary: s) (simp_all add: record_packet_expected)

lemma record_packets_expected:
  "expected_packets (current_frame s) = 0 \<Longrightarrow>
   expected_packets (current_frame (foldl record_packet s ps)) =
     (case find last_packet ps of
        None \<Rightarrow> 0
      | Some q \<Rightarrow> packet_index (pkt_line_num q) (pkt_lines_per_packet q) + 1)"
proof (induction ps arbitrary: s)
  case Nil
  then show ?case by simp
next
  case (Cons p ps)
  show ?case
  proof (cases "last_packet p")
    case True
    then have "expected_packets (current_frame (record_packet s p)) \<noteq> 0"
      using Cons.prems by (simp add: record_packet_expected packet_index_succ_nonzero)
    then show ?thesis
      using True Cons.prems by (simp add: record_packet_expected_kept record_packet_expected)
  next
    case False
    then have "expected_packets (current_frame (record_packet s p)) = 0"
      using Cons.prems by (simp add: record_packet_expected)
    then show ?thesis
      using False Cons.IH by simp
  qed
qed

text \<open>
  C1. A table is judged complete exactly when it holds at least one packet and as many
  as expected. The expected count changes only in the body of the bound check, only
  while it is still 0 and only on a packet with the last-packet flag; it becomes that
  packet's index plus one, which is never 0, so it is set once in the life of a table:
  after any run of packets recorded into a table that started with the count 0, it is
  0 when no packet carried the flag and otherwise the index plus one of the first
  packet that did. A table whose expected count is still 0 is not complete, whatever
  the number of packets it holds.
\<close>

theorem frame_complete_iff_expected_once:
  "(is_frame_complete f \<longleftrightarrow> 0 < received_packets f \<and> received_packets f = expected_packets f)
   \<and> (expected_packets f = 0 \<longrightarrow> \<not> is_frame_complete f)
   \<and> expected_packets (current_frame (record_packet s p)) =
       (if last_packet p \<and> expected_packets (current_frame s) = 0
        then packet_index (pkt_line_num p) (pkt_lines_per_packet p) + 1
        else expected_packets (current_frame s))
   \<and> packet_index (pkt_line_num p) (pkt_lines_per_packet p) + 1 \<noteq> 0
   \<and> (expected_packets (current_frame s) = 0 \<longrightarrow>
        expected_packets (current_frame (foldl record_packet s ps)) =
          (case find last_packet ps of
             None \<Rightarrow> 0
           | Some q \<Rightarrow> packet_index (pkt_line_num q) (pkt_lines_per_packet q) + 1))"
proof -
  have a: "is_frame_complete f \<longleftrightarrow> 0 < received_packets f \<and> received_packets f = expected_packets f"
    by (simp add: is_frame_complete_def)
  have b: "expected_packets f = 0 \<longrightarrow> \<not> is_frame_complete f"
    by (auto simp add: is_frame_complete_def)
  show ?thesis
    using a b record_packet_expected [of s p] packet_index_succ_nonzero [of p "pkt_lines_per_packet p"]
      record_packets_expected [of s ps]
    by blast
qed

theorem frame_complete_iff_expected_once_witness:
  "expected_packets ((init_frame_assembly demo_protocol 7 0)\<lparr>received_packets := 3\<rparr>) = 0
   \<and> \<not> is_frame_complete ((init_frame_assembly demo_protocol 7 0)\<lparr>received_packets := 3\<rparr>)
   \<and> expected_packets (current_frame demo_source) = 0
   \<and> expected_packets (current_frame
         (foldl record_packet demo_source
            [demo_packet 0 0, demo_packet 0 0x811C, demo_packet 0 0x8004])) = 72"
  using frame_complete_iff_expected_once
    [of "(init_frame_assembly demo_protocol 7 0)\<lparr>received_packets := 3\<rparr>" demo_source
        "demo_packet 0 0x811C" "[demo_packet 0 0, demo_packet 0 0x811C, demo_packet 0 0x8004]"]
  by (simp add: init_frame_assembly_def demo_source_def c64u_start_streaming_def c64u_create_def
      demo_packet_def last_packet_def pkt_line_num_def packet_index_def)

subsection \<open>The slot write\<close>

lemma filter_received_update:
  "i < length xs \<Longrightarrow> \<not> Q (xs ! i) \<Longrightarrow> Q v \<Longrightarrow>
   length (filter Q (xs[i := v])) = Suc (length (filter Q xs))"
proof -
  assume i: "i < length xs" and n: "\<not> Q (xs ! i)" and v: "Q v"
  have "xs = take i xs @ xs ! i # drop (Suc i) xs"
    using i by (simp add: id_take_nth_drop)
  then have a: "length (filter Q xs) = length (filter Q (take i xs)) + length (filter Q (drop (Suc i) xs))"
    using n by (metis filter.simps(2) filter_append length_append)
  have "xs[i := v] = take i xs @ v # drop (Suc i) xs"
    using i by (simp add: upd_conv_take_nth_drop)
  then have "length (filter Q (xs[i := v])) = length (filter Q (take i xs)) + Suc (length (filter Q (drop (Suc i) xs)))"
    using v by simp
  with a show ?thesis by simp
qed

text \<open>
  C4. The slot write of a packet, at the index
  \<^verbatim>\<open>line_number / lines_per_packet\<close>: when the index is below the capacity and the
  slot is empty, that slot alone is written (every other slot is as before, and in a
  table of full size the number of occupied slots grows by one) and
  \<^verbatim>\<open>received_packets\<close> grows by one; when the slot is occupied or the index is at
  or beyond the capacity, the table is unchanged.
\<close>

theorem slot_update_first_writer_wins:
  "(slot_of p < C64U_MAX_PACKETS_PER_FRAME P \<and> \<not> received (packets f ! slot_of p) \<longrightarrow>
      packets (slot_update P f p) =
        (packets f)[slot_of p := \<lparr>line_num = pkt_line_num p,
                                   lines_per_packet = pkt_lines_per_packet p,
                                   received = True,
                                   packet_data = payload p\<rparr>]
      \<and> received_packets (slot_update P f p) = received_packets f + 1
      \<and> (\<forall>j. j \<noteq> slot_of p \<longrightarrow> packets (slot_update P f p) ! j = packets f ! j)
      \<and> (length (packets f) = C64U_MAX_PACKETS_PER_FRAME P \<longrightarrow>
           received (packets (slot_update P f p) ! slot_of p)
           \<and> length (filter received (packets (slot_update P f p))) =
               Suc (length (filter received (packets f)))))
   \<and> (\<not> (slot_of p < C64U_MAX_PACKETS_PER_FRAME P \<and> \<not> received (packets f ! slot_of p)) \<longrightarrow>
        slot_update P f p = f)
   \<and> slot_of p = unat (pkt_line_num p) div unat (pkt_lines_per_packet p)"
  by (auto simp add: slot_update_def store_packet_def Let_def filter_received_update slot_of_eq)

theorem slot_update_first_writer_wins_witness:
  "slot_of (demo_packet 7 8) < C64U_MAX_PACKETS_PER_FRAME demo_protocol
   \<and> \<not> received (packets (init_frame_assembly demo_protocol 7 0) ! slot_of (demo_packet 7 8))
   \<and> length (packets (init_frame_assembly demo_protocol 7 0)) = C64U_MAX_PACKETS_PER_FRAME demo_protocol
   \<and> received_packets (slot_update demo_protocol (init_frame_assembly demo_protocol 7 0) (demo_packet 7 8)) = 1
   \<and> received (packets (slot_update demo_protocol (init_frame_assembly demo_protocol 7 0) (demo_packet 7 8)) ! 2)
   \<and> \<not> (slot_of (demo_packet 7 400) < C64U_MAX_PACKETS_PER_FRAME demo_protocol)
   \<and> slot_update demo_protocol (init_frame_assembly demo_protocol 7 0) (demo_packet 7 400)
       = init_frame_assembly demo_protocol 7 0"
proof -
  have s8: "slot_of (demo_packet 7 8) = 2"
    by (simp add: slot_of_eq demo_packet_def pkt_line_num_def)
  have s400: "slot_of (demo_packet 7 400) = 100"
    by (simp add: slot_of_eq demo_packet_def pkt_line_num_def)
  show ?thesis
    using slot_update_first_writer_wins
            [of "demo_packet 7 8" demo_protocol "init_frame_assembly demo_protocol 7 0"]
          slot_update_first_writer_wins
            [of "demo_packet 7 400" demo_protocol "init_frame_assembly demo_protocol 7 0"]
    by (simp add: s8 s400 init_frame_assembly_def demo_protocol_def zero_packet_def)
qed

subsection \<open>Colour conversion\<close>

lemma put_pixel_pair_length [simp]: "length (put_pixel_pair dst b x buf) = length buf"
  by (simp add: put_pixel_pair_def Let_def)


lemma convert_prefix_length [simp]:
  "length (fold (\<lambda>x b. put_pixel_pair dst (dat ! (src + x)) x b) [0..<n] buf) = length buf"
  by (induction n) simp_all


lemma convert_line_length [simp]: "length (convert_line dst src dat buf) = length buf"
  by (simp add: convert_line_def)



declare convert_lines.simps [simp del]

lemma convert_lines_length [simp]: "length (convert_lines h p line buf) = length buf"
proof (induction h p line buf rule: convert_lines.induct)
  case (1 h p line buf)
  show ?case
  proof (cases "line < unat (lines_per_packet p) \<and> int (unat (line_num p) + line) < sint h")
    case True
    then show ?thesis
      using "1.IH" by (subst convert_lines.simps) simp
  next
    case False
    then show ?thesis
      by (subst convert_lines.simps) auto
  qed
qed




lemma assemble_slot_length [simp]: "length (assemble_slot h f i buf) = length buf"
  by (simp add: assemble_slot_def)


lemma assemble_prefix_length [simp]:
  "length (fold (assemble_slot h f) [0..<n] buf) = length buf"
  by (induction n) simp_all














subsection \<open>Format detection\<close>

lemma unat_frame_height_of:
  "unat (frame_height_of p) = unat (pkt_line_num p) + unat (pkt_lines_per_packet p)"
proof -
  have la: "unat (pkt_line_num p) < 2 ^ 16"
    using unsigned_less [of "pkt_line_num p", where ?'a = nat] by simp
  have lb: "unat (pkt_lines_per_packet p) < 2 ^ 8"
    using unsigned_less [of "pkt_lines_per_packet p", where ?'a = nat] by simp
  have a: "unat (ucast (pkt_line_num p) :: u32) = unat (pkt_line_num p)"
    using la by (simp add: unsigned_ucast_eq take_bit_nat_eq_self)
  have b: "unat (ucast (pkt_lines_per_packet p) :: u32) = unat (pkt_lines_per_packet p)"
    using lb by (simp add: unsigned_ucast_eq take_bit_nat_eq_self)
  have "unat (pkt_line_num p) + unat (pkt_lines_per_packet p) < 2 ^ 32"
    using la lb by simp
  then show ?thesis
    unfolding frame_height_of_def by (simp add: unat_word_ariths a b)
qed

lemma record_packet_format:
  "record_packet s p =
     (let s1 = s\<lparr>current_frame := store_packet (current_frame s) p\<rparr> in
      if last_packet p \<and> expected_packets (current_frame s) = 0 then
        detect_format
          (s1\<lparr>current_frame := (current_frame s1)
               \<lparr>expected_packets :=
                  packet_index (pkt_line_num p) (pkt_lines_per_packet p) + 1\<rparr>\<rparr>)
          (frame_height_of p)
      else s1)"
  by (simp add: record_packet_def last_packet_update_def Let_def)

text \<open>
  C5. When a packet with the last-packet flag is recorded into a table whose expected
  count is still 0, the frame height is \<^verbatim>\<open>line_num + lines_per_packet\<close> (the sum
  does not wrap), and when no format was detected before or the detected height
  differs, the height is stored and the expected rate is 50 for the PAL height 288,
  60 for the NTSC height 240, and for any other height 60 when it is at most 250 and
  50 otherwise. In every other case the rate and the detected format stay as they were.
\<close>

theorem format_detection_rate:
  "unat (frame_height_of p) = unat (pkt_line_num p) + unat (pkt_lines_per_packet p)
   \<and> (last_packet p \<and> expected_packets (current_frame s) = 0
        \<and> (\<not> format_detected s \<or> detected_frame_height s \<noteq> frame_height_of p)
       \<longrightarrow> format_detected (record_packet s p)
           \<and> detected_frame_height (record_packet s p) = frame_height_of p
           \<and> height (record_packet s p) = frame_height_of p
           \<and> expected_fps (record_packet s p) =
               (if frame_height_of p = 288 then 50
                else if frame_height_of p = 240 then 60
                else if frame_height_of p \<le> 250 then 60 else 50))
   \<and> (\<not> (last_packet p \<and> expected_packets (current_frame s) = 0
           \<and> (\<not> format_detected s \<or> detected_frame_height s \<noteq> frame_height_of p))
       \<longrightarrow> expected_fps (record_packet s p) = expected_fps s
           \<and> format_detected (record_packet s p) = format_detected s
           \<and> detected_frame_height (record_packet s p) = detected_frame_height s
           \<and> height (record_packet s p) = height s)"
proof -
  have b: "last_packet p \<and> expected_packets (current_frame s) = 0
        \<and> (\<not> format_detected s \<or> detected_frame_height s \<noteq> frame_height_of p)
       \<longrightarrow> format_detected (record_packet s p)
           \<and> detected_frame_height (record_packet s p) = frame_height_of p
           \<and> height (record_packet s p) = frame_height_of p
           \<and> expected_fps (record_packet s p) =
               (if frame_height_of p = 288 then 50
                else if frame_height_of p = 240 then 60
                else if frame_height_of p \<le> 250 then 60 else 50)"
    by (auto simp add: record_packet_format detect_format_def rate_for_height_def Let_def
        C64U_PAL_HEIGHT_def C64U_NTSC_HEIGHT_def)
  have c: "\<not> (last_packet p \<and> expected_packets (current_frame s) = 0
           \<and> (\<not> format_detected s \<or> detected_frame_height s \<noteq> frame_height_of p))
       \<longrightarrow> expected_fps (record_packet s p) = expected_fps s
           \<and> format_detected (record_packet s p) = format_detected s
           \<and> detected_frame_height (record_packet s p) = detected_frame_height s
           \<and> height (record_packet s p) = height s"
    by (auto simp add: record_packet_format detect_format_def Let_def)
  show ?thesis using unat_frame_height_of [of p] b c by blast
qed

theorem format_detection_rate_witness:
  "last_packet (demo_packet 7 0x811C) \<and> expected_packets (current_frame demo_source) = 0
   \<and> \<not> format_detected demo_source
   \<and> frame_height_of (demo_packet 7 0x811C) = 288
   \<and> expected_fps (record_packet demo_source (demo_packet 7 0x811C)) = 50
   \<and> last_packet (demo_packet 7 0x80EC)
   \<and> frame_height_of (demo_packet 7 0x80EC) = 240
   \<and> expected_fps (record_packet demo_source (demo_packet 7 0x80EC)) = 60
   \<and> last_packet (demo_packet 7 0x80C4)
   \<and> frame_height_of (demo_packet 7 0x80C4) = 200
   \<and> expected_fps (record_packet demo_source (demo_packet 7 0x80C4)) = 60
   \<and> last_packet (demo_packet 7 0x8128)
   \<and> frame_height_of (demo_packet 7 0x8128) = 300
   \<and> expected_fps (record_packet demo_source (demo_packet 7 0x8128)) = 50
   \<and> \<not> last_packet (demo_packet 7 0x0008)
   \<and> expected_fps (record_packet demo_source (demo_packet 7 0x0008)) = 50125 / 1000"
proof -
  have s: "expected_packets (current_frame demo_source) = 0" "\<not> format_detected demo_source"
    "expected_fps demo_source = 50125 / 1000"
    by (simp_all add: demo_source_def c64u_start_streaming_def c64u_create_def init_frame_assembly_def)
  have h: "frame_height_of (demo_packet 7 0x811C) = 288" "frame_height_of (demo_packet 7 0x80EC) = 240"
    "frame_height_of (demo_packet 7 0x80C4) = 200" "frame_height_of (demo_packet 7 0x8128) = 300"
    by (simp_all add: frame_height_of_def demo_packet_def pkt_line_num_def)
  have l: "last_packet (demo_packet 7 0x811C)" "last_packet (demo_packet 7 0x80EC)"
    "last_packet (demo_packet 7 0x80C4)" "last_packet (demo_packet 7 0x8128)"
    "\<not> last_packet (demo_packet 7 0x0008)"
    by (simp_all add: last_packet_def demo_packet_def)
  show ?thesis
    using format_detection_rate [of "demo_packet 7 0x811C" demo_source]
      format_detection_rate [of "demo_packet 7 0x80EC" demo_source]
      format_detection_rate [of "demo_packet 7 0x80C4" demo_source]
      format_detection_rate [of "demo_packet 7 0x8128" demo_source]
      format_detection_rate [of "demo_packet 7 0x0008" demo_source]
    by (simp add: s h l)
qed

subsection \<open>The reset after completion\<close>

lemma new_frame_on_reset_table:
  "current_frame s = init_frame_assembly P 0 t \<Longrightarrow> pkt_frame_num q \<noteq> 0 \<Longrightarrow>
   new_frame P s q e =
     ([], (if 0 < last_capture_time s then s\<lparr>frames_expected := frames_expected s + 1\<rparr> else s)
            \<lparr>frames_captured := frames_captured s + 1,
              last_capture_time := t_capture e,
              current_frame := init_frame_assembly P (pkt_frame_num q) (t_start e)\<rparr>)"
  by (simp add: new_frame_def finalize_previous_def init_frame_assembly_def Let_def)

lemma new_frame_same_number:
  "frame_num (current_frame s) = pkt_frame_num q \<Longrightarrow> new_frame P s q e = ([], s)"
  by (simp add: new_frame_def)

lemma record_on_reset_table:
  assumes "current_frame s = init_frame_assembly P 0 t"
  shows "frame_num (current_frame (record_packet s q)) = 0"
    and "start_time (current_frame (record_packet s q)) = t"
    and "slot_of q < C64U_MAX_PACKETS_PER_FRAME P \<Longrightarrow>
           received (packets (current_frame (record_packet s q)) ! slot_of q)
           \<and> received_packets (current_frame (record_packet s q)) = 1"
  using assms
  by (simp_all add: record_packet_def last_packet_update_def store_packet_def
      init_frame_assembly_def zero_packet_def Let_def)

lemma complete_in_frame_not_complete:
  "\<not> is_frame_complete (current_frame s) \<Longrightarrow> complete_in_frame P s e = ([], s)"
  by (simp add: complete_in_frame_def)

lemma complete_in_frame_table:
  "is_frame_complete (current_frame s) \<Longrightarrow>
   current_frame (snd (complete_in_frame P s e)) = init_frame_assembly P 0 (t_reset e)"
  by (simp add: complete_in_frame_def split_beta)

lemma video_statistics_current_frame [simp]:
  "current_frame (video_statistics s now) = current_frame s"
  by (simp add: video_statistics_def Let_def)

lemma process_frame_zero_packet:
  assumes tab: "current_frame s = init_frame_assembly P 0 t"
    and v: "valid_format P q" and l: "assembly_lock e"
    and z: "pkt_frame_num q = 0" and nl: "\<not> last_packet q"
    and b: "slot_of q < C64U_MAX_PACKETS_PER_FRAME P"
  shows "process_packet P s q e = ([], record_packet (video_statistics s (t_now e)) q)"
proof -
  let ?s0 = "video_statistics s (t_now e)"
  have t0: "current_frame ?s0 = init_frame_assembly P 0 t" using tab by simp
  have nf: "new_frame P ?s0 q e = ([], ?s0)"
    using t0 z by (simp add: new_frame_same_number init_frame_assembly_def)
  have "expected_packets (current_frame (record_packet ?s0 q)) = 0"
    using t0 nl by (simp add: record_packet_expected init_frame_assembly_def)
  moreover have "received_packets (current_frame (record_packet ?s0 q)) = 1"
    using record_on_reset_table(3) [OF t0 b] by simp
  ultimately have "\<not> is_frame_complete (current_frame (record_packet ?s0 q))"
    by (simp add: is_frame_complete_def)
  then have "accumulate P ?s0 q e = ([], record_packet ?s0 q)"
    using b by (simp add: accumulate_def complete_in_frame_not_complete)
  then show ?thesis
    using v l nf by (simp add: process_packet_def Let_def)
qed

text \<open>
  C10. When the completion test inside the frame succeeds, the live table is
  reinitialised with frame number 0 and the clock reading of that moment, not with the
  number of the frame just completed. For the next packet on such a table: when its
  frame number is not 0, the new-frame path runs (it counts a captured frame, finds
  nothing to finish, and starts a table for the packet's frame number with a new start
  time); when its frame number is 0, the new-frame path is skipped, the packet is
  recorded into the reset table, whose frame number stays 0 and whose start time stays
  the reset instant, and a pass with such a packet that does not complete the frame
  does nothing else.
\<close>

theorem reset_table_has_frame_zero:
  "(is_frame_complete (current_frame s0) \<longrightarrow>
      current_frame (snd (complete_in_frame P s0 e0)) = init_frame_assembly P 0 (t_reset e0))
   \<and> (current_frame s = init_frame_assembly P 0 t \<longrightarrow>
        (pkt_frame_num q \<noteq> 0 \<longrightarrow>
           fst (new_frame P s q e) = []
           \<and> frames_captured (snd (new_frame P s q e)) = frames_captured s + 1
           \<and> last_capture_time (snd (new_frame P s q e)) = t_capture e
           \<and> current_frame (snd (new_frame P s q e))
               = init_frame_assembly P (pkt_frame_num q) (t_start e))
        \<and> (pkt_frame_num q = 0 \<longrightarrow>
             new_frame P s q e = ([], s)
             \<and> frame_num (current_frame (record_packet s q)) = 0
             \<and> start_time (current_frame (record_packet s q)) = t
             \<and> (slot_of q < C64U_MAX_PACKETS_PER_FRAME P \<longrightarrow>
                  received (packets (current_frame (record_packet s q)) ! slot_of q)
                  \<and> received_packets (current_frame (record_packet s q)) = 1)
             \<and> (valid_format P q \<and> assembly_lock e \<and> \<not> last_packet q
                  \<and> slot_of q < C64U_MAX_PACKETS_PER_FRAME P \<longrightarrow>
                  process_packet P s q e = ([], record_packet (video_statistics s (t_now e)) q))))"
proof -
  have a: "is_frame_complete (current_frame s0) \<longrightarrow>
      current_frame (snd (complete_in_frame P s0 e0)) = init_frame_assembly P 0 (t_reset e0)"
    by (simp add: complete_in_frame_table)
  have b: "current_frame s = init_frame_assembly P 0 t \<longrightarrow> pkt_frame_num q \<noteq> 0 \<longrightarrow>
           fst (new_frame P s q e) = []
           \<and> frames_captured (snd (new_frame P s q e)) = frames_captured s + 1
           \<and> last_capture_time (snd (new_frame P s q e)) = t_capture e
           \<and> current_frame (snd (new_frame P s q e))
               = init_frame_assembly P (pkt_frame_num q) (t_start e)"
    by (simp add: new_frame_on_reset_table)
  have c: "current_frame s = init_frame_assembly P 0 t \<longrightarrow> pkt_frame_num q = 0 \<longrightarrow>
             new_frame P s q e = ([], s)"
    by (simp add: new_frame_same_number init_frame_assembly_def)
  show ?thesis
    using a b c record_on_reset_table [of s P t q] process_frame_zero_packet [of s P t q e]
    by blast
qed


lemma demo_source_fields:
  "current_frame demo_source = init_frame_assembly demo_protocol 0 0"
  "last_video_log demo_source = 0" "last_capture_time demo_source = 0"
  "last_completed_frame demo_source = 0" "frames_captured demo_source = 0"
  "frame_drops demo_source = 0"
  by (simp_all add: demo_source_def c64u_start_streaming_def c64u_create_def)

lemma demo_packet_fields:
  "valid_format demo_protocol (demo_packet n lf)"
  "pkt_frame_num (demo_packet n lf) = n"
  "pkt_lines_per_packet (demo_packet n lf) = 4"
  "line_field (demo_packet n lf) = lf"
  by (simp_all add: valid_format_def demo_packet_def demo_protocol_def C64U_PIXELS_PER_LINE_def)

lemma demo_protocol_fields:
  "C64U_MAX_PACKETS_PER_FRAME demo_protocol = 72"
  "C64U_LINES_PER_PACKET demo_protocol = 4"
  "C64U_FRAME_TIMEOUT_MS demo_protocol = 100"
  by (simp_all add: demo_protocol_def)

lemma demo_recorded_frame:
  "frame_num (current_frame demo_recorded) = 7"
  "received_packets (current_frame demo_recorded) = 1"
  "expected_packets (current_frame demo_recorded) = 1"
  "last_completed_frame demo_recorded = 0"
proof -
  have nf: "new_frame demo_protocol (video_statistics demo_source 1000) (demo_packet 7 0x8000) (demo_env 1000)
        = ([], (video_statistics demo_source 1000)
                 \<lparr>frames_captured := frames_captured (video_statistics demo_source 1000) + 1,
                   last_capture_time := 1001,
                   current_frame := init_frame_assembly demo_protocol 7 1004\<rparr>)"
    by (simp add: new_frame_def finalize_previous_def demo_source_fields demo_packet_fields
        init_frame_assembly_def video_statistics_def Let_def demo_env_def)
  have so: "slot_of (demo_packet 7 0x8000) = 0"
    by (simp add: slot_of_eq demo_packet_def pkt_line_num_def)
  have lp: "last_packet (demo_packet 7 0x8000)"
    by (simp add: last_packet_def demo_packet_def)
  have pi: "packet_index (pkt_line_num (demo_packet 7 0x8000)) (pkt_lines_per_packet (demo_packet 7 0x8000)) = 0"
    by (simp add: packet_index_def demo_packet_def pkt_line_num_def)
  show "frame_num (current_frame demo_recorded) = 7"
    "received_packets (current_frame demo_recorded) = 1"
    "expected_packets (current_frame demo_recorded) = 1"
    "last_completed_frame demo_recorded = 0"
    unfolding demo_recorded_def nf
    by (simp_all add: record_packet_def last_packet_update_def store_packet_def so lp pi
        init_frame_assembly_def demo_protocol_def zero_packet_def detect_format_def Let_def
        video_statistics_def demo_source_fields)
qed

lemma demo_reset_eq:
  "demo_reset = snd (complete_in_frame demo_protocol demo_recorded (demo_env 1000))"
proof -
  have so: "slot_of (demo_packet 7 0x8000) = 0"
    by (simp add: slot_of_eq demo_packet_def pkt_line_num_def)
  show ?thesis
    by (simp add: demo_reset_def demo_recorded_def process_packet_def demo_packet_fields
        accumulate_def so demo_protocol_fields split_beta Let_def demo_env_def)
qed


lemma demo_reset_frame:
  "current_frame demo_reset = init_frame_assembly demo_protocol 0 1006"
proof -
  have "is_frame_complete (current_frame demo_recorded)"
    by (simp add: is_frame_complete_def demo_recorded_frame)
  then show ?thesis
    unfolding demo_reset_eq by (simp add: complete_in_frame_table demo_env_def)
qed

theorem reset_table_has_frame_zero_witness:
  "is_frame_complete (current_frame demo_recorded)
   \<and> current_frame (snd (complete_in_frame demo_protocol demo_recorded (demo_env 1000)))
       = init_frame_assembly demo_protocol 0 1006
   \<and> current_frame demo_reset = init_frame_assembly demo_protocol 0 1006
   \<and> pkt_frame_num (demo_packet 8 0) \<noteq> 0
   \<and> fst (new_frame demo_protocol demo_reset (demo_packet 8 0) (demo_env 2000)) = []
   \<and> current_frame (snd (new_frame demo_protocol demo_reset (demo_packet 8 0) (demo_env 2000)))
       = init_frame_assembly demo_protocol 8 2004
   \<and> pkt_frame_num (demo_packet 0 0) = 0
   \<and> new_frame demo_protocol demo_reset (demo_packet 0 0) (demo_env 2000) = ([], demo_reset)
   \<and> start_time (current_frame (record_packet demo_reset (demo_packet 0 0))) = 1006
   \<and> valid_format demo_protocol (demo_packet 0 0) \<and> assembly_lock (demo_env 2000)
   \<and> \<not> last_packet (demo_packet 0 0)
   \<and> slot_of (demo_packet 0 0) < C64U_MAX_PACKETS_PER_FRAME demo_protocol
   \<and> process_packet demo_protocol demo_reset (demo_packet 0 0) (demo_env 2000)
       = ([], record_packet (video_statistics demo_reset 2000) (demo_packet 0 0))"
proof -
  have c: "is_frame_complete (current_frame demo_recorded)"
    by (simp add: is_frame_complete_def demo_recorded_frame)
  have so: "slot_of (demo_packet 0 0) = 0"
    by (simp add: slot_of_eq demo_packet_def pkt_line_num_def)
  have nl: "\<not> last_packet (demo_packet 0 0)"
    by (simp add: last_packet_def demo_packet_def)
  have e: "t_reset (demo_env 1000) = 1006" "t_start (demo_env 2000) = 2004"
    "t_now (demo_env 2000) = 2000" "assembly_lock (demo_env 2000)"
    by (simp_all add: demo_env_def)
  show ?thesis
    using reset_table_has_frame_zero
            [of demo_recorded demo_protocol "demo_env 1000" demo_reset 1006 "demo_packet 8 0" "demo_env 2000"]
          reset_table_has_frame_zero
            [of demo_recorded demo_protocol "demo_env 1000" demo_reset 1006 "demo_packet 0 0" "demo_env 2000"]
    by (simp add: c so nl e demo_reset_frame demo_packet_fields demo_protocol_fields)
qed

subsection \<open>The guard on the last completed frame\<close>

lemma assembled_frames_append [simp]:
  "assembled_frames (xs @ ys) = assembled_frames xs @ assembled_frames ys"
  by (induction xs rule: assembled_frames.induct) simp_all

lemma dropped_frames_append [simp]:
  "dropped_frames (xs @ ys) = dropped_frames xs @ dropped_frames ys"
  by (induction xs rule: dropped_frames.induct) simp_all

lemma guard_chain:
  assumes "distinct_adj (a # xs)" and "b = last (a # xs)" and "distinct_adj (b # ys)"
  shows "distinct_adj (a # xs @ ys) \<and> last (a # xs @ ys) = last (b # ys)"
proof (cases ys)
  case Nil
  then show ?thesis using assms by simp
next
  case (Cons y ys')
  have "distinct_adj ((a # xs) @ ys)"
    using assms Cons by (simp add: distinct_adj_append_iff del: append_Cons)
  then show ?thesis using Cons by simp
qed

lemma video_statistics_last_completed [simp]:
  "last_completed_frame (video_statistics s now) = last_completed_frame s"
  by (simp add: video_statistics_def Let_def)

lemma video_statistics_frame_drops [simp]:
  "frame_drops (video_statistics s now) = frame_drops s"
  by (simp add: video_statistics_def Let_def)

lemma assemble_and_swap_fields [simp]:
  "last_completed_frame (assemble_and_swap P s c t) = frame_num (current_frame s)"
  "current_frame (assemble_and_swap P s c t) = current_frame s"
  "frame_drops (assemble_and_swap P s c t) = frame_drops s"
  by (simp_all add: assemble_and_swap_def swap_frame_buffers_def Let_def)

lemma record_packet_fields [simp]:
  "last_completed_frame (record_packet s p) = last_completed_frame s"
  "frame_drops (record_packet s p) = frame_drops s"
  "frame_num (current_frame (record_packet s p)) = frame_num (current_frame s)"
  "start_time (current_frame (record_packet s p)) = start_time (current_frame s)"
  by (simp_all add: record_packet_def last_packet_update_def detect_format_def store_packet_def Let_def)

lemma finalize_previous_cases:
  "(fst (finalize_previous P s e) = [Assembled (frame_num (current_frame s))]
      \<and> last_completed_frame s \<noteq> frame_num (current_frame s)
      \<and> is_frame_complete (current_frame s)
      \<and> last_completed_frame (snd (finalize_previous P s e)) = frame_num (current_frame s)
      \<and> frame_drops (snd (finalize_previous P s e)) = frame_drops s)
   \<or> (fst (finalize_previous P s e) = [Dropped (frame_num (current_frame s))]
      \<and> 0 < received_packets (current_frame s) \<and> \<not> is_frame_complete (current_frame s)
      \<and> is_frame_timeout P (current_frame s) (t_timeout e)
      \<and> last_completed_frame (snd (finalize_previous P s e)) = last_completed_frame s
      \<and> frame_drops (snd (finalize_previous P s e)) = frame_drops s + 1)
   \<or> (fst (finalize_previous P s e) = []
      \<and> \<not> (0 < received_packets (current_frame s) \<and> \<not> is_frame_complete (current_frame s)
            \<and> is_frame_timeout P (current_frame s) (t_timeout e))
      \<and> last_completed_frame (snd (finalize_previous P s e)) = last_completed_frame s
      \<and> frame_drops (snd (finalize_previous P s e)) = frame_drops s)"
  by (simp add: finalize_previous_def)

lemma finalize_previous_current_frame [simp]:
  "current_frame (snd (finalize_previous P s e)) = current_frame s"
  by (simp add: finalize_previous_def)

lemma complete_in_frame_cases:
  "(fst (complete_in_frame P s e) = [Assembled (frame_num (current_frame s))]
      \<and> last_completed_frame s \<noteq> frame_num (current_frame s)
      \<and> is_frame_complete (current_frame s)
      \<and> last_completed_frame (snd (complete_in_frame P s e)) = frame_num (current_frame s))
   \<or> (fst (complete_in_frame P s e) = []
      \<and> last_completed_frame (snd (complete_in_frame P s e)) = last_completed_frame s)"
  by (simp add: complete_in_frame_def split_beta)

lemma complete_in_frame_frame_drops [simp]:
  "frame_drops (snd (complete_in_frame P s e)) = frame_drops s"
  by (simp add: complete_in_frame_def split_beta)


lemma guard_respected_Nil [simp]: "guard_respected lc [] lc' = (lc' = lc)"
  by (auto simp add: guard_respected_def)

lemma guard_respected_append:
  "guard_respected a xs b \<Longrightarrow> guard_respected b ys c \<Longrightarrow> guard_respected a (xs @ ys) c"
  unfolding guard_respected_def using guard_chain [of a "assembled_frames xs" b "assembled_frames ys"]
  by simp

lemma finalize_previous_guard:
  "guard_respected (last_completed_frame s) (fst (finalize_previous P s e))
     (last_completed_frame (snd (finalize_previous P s e)))"
  using finalize_previous_cases [of P s e] by (auto simp add: guard_respected_def)

lemma complete_in_frame_guard:
  "guard_respected (last_completed_frame s) (fst (complete_in_frame P s e))
     (last_completed_frame (snd (complete_in_frame P s e)))"
  using complete_in_frame_cases [of P s e] by (auto simp add: guard_respected_def)

lemma new_frame_guard:
  "guard_respected (last_completed_frame s) (fst (new_frame P s p e))
     (last_completed_frame (snd (new_frame P s p e)))"
proof (cases "frame_num (current_frame s) \<noteq> pkt_frame_num p")
  case True
  define s2 where "s2 = (if 0 < last_capture_time s
                  then s\<lparr>frames_expected := frames_expected s + 1\<rparr> else s)
                    \<lparr>frames_captured := frames_captured
                        (if 0 < last_capture_time s
                         then s\<lparr>frames_expected := frames_expected s + 1\<rparr> else s) + 1,
                     last_capture_time := t_capture e\<rparr>"
  have lc: "last_completed_frame s2 = last_completed_frame s" by (simp add: s2_def)
  have "fst (new_frame P s p e) = fst (finalize_previous P s2 e)"
    and "last_completed_frame (snd (new_frame P s p e))
           = last_completed_frame (snd (finalize_previous P s2 e))"
    using True by (simp_all add: new_frame_def s2_def Let_def split_beta)
  then show ?thesis using finalize_previous_guard [of s2 P e] lc by simp
next
  case False
  then show ?thesis by (simp add: new_frame_def)
qed

lemma accumulate_guard:
  "guard_respected (last_completed_frame s) (fst (accumulate P s p e))
     (last_completed_frame (snd (accumulate P s p e)))"
  using complete_in_frame_guard [of "record_packet s p" P e]
  by (simp add: accumulate_def)

lemma process_packet_guard:
  "guard_respected (last_completed_frame s) (fst (process_packet P s p e))
     (last_completed_frame (snd (process_packet P s p e)))"
proof (cases "valid_format P p \<and> assembly_lock e")
  case True
  let ?s0 = "video_statistics s (t_now e)"
  let ?r1 = "new_frame P ?s0 p e"
  let ?r2 = "accumulate P (snd ?r1) p e"
  have eq: "process_packet P s p e = (fst ?r1 @ fst ?r2, snd ?r2)"
    using True by (simp add: process_packet_def Let_def split_beta)
  have "guard_respected (last_completed_frame s) (fst ?r1) (last_completed_frame (snd ?r1))"
    using new_frame_guard [of ?s0 P p e] by simp
  then show ?thesis
    unfolding eq using accumulate_guard [of "snd ?r1" P p e] by (simp add: guard_respected_append)
next
  case False
  then show ?thesis by (auto simp add: process_packet_def Let_def)
qed

lemma run_packets_guard:
  "guard_respected (last_completed_frame s) (fst (run_packets P s pkts))
     (last_completed_frame (snd (run_packets P s pkts)))"
proof (induction pkts arbitrary: s)
  case Nil
  then show ?case by simp
next
  case (Cons pe pkts)
  obtain p e where pe: "pe = (p, e)" by (cases pe)
  let ?r1 = "process_packet P s p e"
  have eq: "run_packets P s (pe # pkts)
              = (fst ?r1 @ fst (run_packets P (snd ?r1) pkts), snd (run_packets P (snd ?r1) pkts))"
    by (simp add: pe split_beta)
  show ?case
    unfolding eq using process_packet_guard [of s P p e] Cons.IH [of "snd ?r1"]
    by (simp add: guard_respected_append)
qed

text \<open>
  C2, as the code has it. The guard remembers one frame number, the last one
  assembled. Over any sequence of packets, from any context, no frame number is
  assembled and swapped twice in a row, the first one assembled differs from the value
  \<^verbatim>\<open>last_completed_frame\<close> had at the start, and at the end the field holds
  the last frame number assembled. On the new-frame path and on the completion path
  inside the frame alike, the action runs only on the table's own frame number, only
  when \<^verbatim>\<open>last_completed_frame\<close> differs from it, and sets the field to it; when
  it does not run, the field is unchanged.
\<close>

theorem assembly_guarded_by_last_completed:
  "distinct_adj (last_completed_frame s # assembled_frames (fst (run_packets P s pkts)))
   \<and> last_completed_frame (snd (run_packets P s pkts))
       = last (last_completed_frame s # assembled_frames (fst (run_packets P s pkts)))
   \<and> (Assembled n \<in> set (fst (finalize_previous P s e)) \<longrightarrow>
         n = frame_num (current_frame s) \<and> last_completed_frame s \<noteq> n
         \<and> last_completed_frame (snd (finalize_previous P s e)) = n)
   \<and> (assembled_frames (fst (finalize_previous P s e)) = [] \<longrightarrow>
         last_completed_frame (snd (finalize_previous P s e)) = last_completed_frame s)
   \<and> (Assembled n \<in> set (fst (complete_in_frame P s e)) \<longrightarrow>
         n = frame_num (current_frame s) \<and> last_completed_frame s \<noteq> n
         \<and> last_completed_frame (snd (complete_in_frame P s e)) = n)
   \<and> (assembled_frames (fst (complete_in_frame P s e)) = [] \<longrightarrow>
         last_completed_frame (snd (complete_in_frame P s e)) = last_completed_frame s)"
proof -
  have a: "distinct_adj (last_completed_frame s # assembled_frames (fst (run_packets P s pkts)))
   \<and> last_completed_frame (snd (run_packets P s pkts))
       = last (last_completed_frame s # assembled_frames (fst (run_packets P s pkts)))"
    using run_packets_guard [of s P pkts] unfolding guard_respected_def .
  have b: "(Assembled n \<in> set (fst (finalize_previous P s e)) \<longrightarrow>
         n = frame_num (current_frame s) \<and> last_completed_frame s \<noteq> n
         \<and> last_completed_frame (snd (finalize_previous P s e)) = n)
   \<and> (assembled_frames (fst (finalize_previous P s e)) = [] \<longrightarrow>
         last_completed_frame (snd (finalize_previous P s e)) = last_completed_frame s)"
    using finalize_previous_cases [of P s e] by auto
  have c: "(Assembled n \<in> set (fst (complete_in_frame P s e)) \<longrightarrow>
         n = frame_num (current_frame s) \<and> last_completed_frame s \<noteq> n
         \<and> last_completed_frame (snd (complete_in_frame P s e)) = n)
   \<and> (assembled_frames (fst (complete_in_frame P s e)) = [] \<longrightarrow>
         last_completed_frame (snd (complete_in_frame P s e)) = last_completed_frame s)"
    using complete_in_frame_cases [of P s e] by auto
  show ?thesis using a b c by blast
qed


lemma record_on_fresh_table:
  assumes "current_frame s = init_frame_assembly P m t"
    and "slot_of q < C64U_MAX_PACKETS_PER_FRAME P"
  shows "received_packets (current_frame (record_packet s q)) = 1"
    and "expected_packets (current_frame (record_packet s q)) =
           (if last_packet q then packet_index (pkt_line_num q) (pkt_lines_per_packet q) + 1 else 0)"
  using assms
  by (simp_all add: record_packet_def last_packet_update_def store_packet_def
      init_frame_assembly_def zero_packet_def Let_def)

lemma one_packet_frame_step:
  assumes tab: "current_frame s = init_frame_assembly P 0 t"
    and n: "pkt_frame_num p \<noteq> 0" and v: "valid_format P p" and lp: "last_packet p"
    and so: "slot_of p = 0" and mx: "0 < C64U_MAX_PACKETS_PER_FRAME P"
    and al: "assembly_lock e" and fl: "frame_lock e"
    and lc: "last_completed_frame s \<noteq> pkt_frame_num p"
  shows "fst (process_packet P s p e) = [Assembled (pkt_frame_num p)]"
    and "current_frame (snd (process_packet P s p e)) = init_frame_assembly P 0 (t_reset e)"
    and "last_completed_frame (snd (process_packet P s p e)) = pkt_frame_num p"
    and "frame_drops (snd (process_packet P s p e)) = frame_drops s"
proof -
  let ?s0 = "video_statistics s (t_now e)"
  have t0: "current_frame ?s0 = init_frame_assembly P 0 t" using tab by simp
  obtain s1 where nf: "new_frame P ?s0 p e = ([], s1)"
    and s1: "current_frame s1 = init_frame_assembly P (pkt_frame_num p) (t_start e)"
      "last_completed_frame s1 = last_completed_frame s" "frame_drops s1 = frame_drops s"
    using new_frame_on_reset_table [OF t0 n, of e] by simp
  let ?r = "record_packet s1 p"
  have b: "slot_of p < C64U_MAX_PACKETS_PER_FRAME P" using so mx by simp
  have pi: "packet_index (pkt_line_num p) (pkt_lines_per_packet p) = 0"
    using so unfolding slot_of_def by (simp add: unat_eq_0)
  have "received_packets (current_frame ?r) = 1" "expected_packets (current_frame ?r) = 1"
    using record_on_fresh_table [OF s1(1) b] lp pi by simp_all
  then have c: "is_frame_complete (current_frame ?r)"
    by (simp add: is_frame_complete_def)
  have fn: "frame_num (current_frame ?r) = pkt_frame_num p"
    using s1(1) by (simp add: init_frame_assembly_def)
  have lr: "last_completed_frame ?r \<noteq> frame_num (current_frame ?r)"
    using lc s1(2) fn by simp
  have acc: "accumulate P s1 p e = complete_in_frame P ?r e"
    using b by (simp add: accumulate_def)
  have cf: "complete_in_frame P ?r e =
      ([Assembled (pkt_frame_num p)],
       (assemble_and_swap P ?r (t_capture e) (t_latency e))
         \<lparr>current_frame := init_frame_assembly P 0 (t_reset e)\<rparr>)"
    using c fl lr fn by (simp add: complete_in_frame_def)
  have pp: "process_packet P s p e =
      ([Assembled (pkt_frame_num p)],
       (assemble_and_swap P ?r (t_capture e) (t_latency e))
         \<lparr>current_frame := init_frame_assembly P 0 (t_reset e)\<rparr>)"
    using v al nf acc cf by (simp add: process_packet_def Let_def)
  show "fst (process_packet P s p e) = [Assembled (pkt_frame_num p)]"
    and "current_frame (snd (process_packet P s p e)) = init_frame_assembly P 0 (t_reset e)"
    and "last_completed_frame (snd (process_packet P s p e)) = pkt_frame_num p"
    and "frame_drops (snd (process_packet P s p e)) = frame_drops s"
    unfolding pp using fn s1(3) by simp_all
qed

lemma demo_last_packet_fields:
  "last_packet (demo_packet n 0x8000)" "slot_of (demo_packet n 0x8000) = 0"
  by (simp_all add: last_packet_def slot_of_eq demo_packet_def pkt_line_num_def)

lemma demo_env_fields:
  "assembly_lock (demo_env t)" "frame_lock (demo_env t)" "frame_lock_prev (demo_env t)"
  "t_now (demo_env t) = t" "t_capture (demo_env t) = t + 1" "t_timeout (demo_env t) = t + 2"
  "t_start (demo_env t) = t + 4" "t_reset (demo_env t) = t + 6"
  by (simp_all add: demo_env_def)

lemma demo_three_frames:
  "fst (run_packets demo_protocol demo_source
          [(demo_packet 1 0x8000, demo_env 20000000),
           (demo_packet 2 0x8000, demo_env 40000000),
           (demo_packet 1 0x8000, demo_env 60000000)])
     = [Assembled 1, Assembled 2, Assembled 1]
   \<and> last_completed_frame (snd (run_packets demo_protocol demo_source
          [(demo_packet 1 0x8000, demo_env 20000000),
           (demo_packet 2 0x8000, demo_env 40000000),
           (demo_packet 1 0x8000, demo_env 60000000)])) = 1"
proof -
  let ?r1 = "process_packet demo_protocol demo_source (demo_packet 1 0x8000) (demo_env 20000000)"
  let ?r2 = "process_packet demo_protocol (snd ?r1) (demo_packet 2 0x8000) (demo_env 40000000)"
  let ?r3 = "process_packet demo_protocol (snd ?r2) (demo_packet 1 0x8000) (demo_env 60000000)"
  note ev = demo_packet_fields demo_last_packet_fields demo_env_fields demo_protocol_fields
  have r1: "fst ?r1 = [Assembled 1]"
    "current_frame (snd ?r1) = init_frame_assembly demo_protocol 0 20000006"
    "last_completed_frame (snd ?r1) = 1"
    using one_packet_frame_step
            [of demo_source demo_protocol 0 "demo_packet 1 0x8000" "demo_env 20000000"]
    by (simp_all add: ev demo_source_fields)
  have r2: "fst ?r2 = [Assembled 2]"
    "current_frame (snd ?r2) = init_frame_assembly demo_protocol 0 40000006"
    "last_completed_frame (snd ?r2) = 2"
    using one_packet_frame_step
            [of "snd ?r1" demo_protocol 20000006 "demo_packet 2 0x8000" "demo_env 40000000"]
    by (simp_all add: ev r1)
  have r3: "fst ?r3 = [Assembled 1]"
    "last_completed_frame (snd ?r3) = 1"
    using one_packet_frame_step
            [of "snd ?r2" demo_protocol 40000006 "demo_packet 1 0x8000" "demo_env 60000000"]
    by (simp_all add: ev r2)
  show ?thesis
    by (simp add: split_beta r1 r2 r3)
qed

text \<open>
  C2 as stated, at most once per frame number over every sequence of packets, fails:
  three one-packet frames numbered 1, 2, 1 are each assembled and swapped, frame
  number 1 twice.
\<close>

theorem assembled_twice_counterexample:
  "fst (run_packets demo_protocol demo_source
          [(demo_packet 1 0x8000, demo_env 20000000),
           (demo_packet 2 0x8000, demo_env 40000000),
           (demo_packet 1 0x8000, demo_env 60000000)])
     = [Assembled 1, Assembled 2, Assembled 1]"
  using demo_three_frames by simp


theorem assembly_guarded_by_last_completed_witness:
  "distinct_adj (last_completed_frame demo_source # [1, 2, 1])
   \<and> assembled_frames (fst (run_packets demo_protocol demo_source
          [(demo_packet 1 0x8000, demo_env 20000000),
           (demo_packet 2 0x8000, demo_env 40000000),
           (demo_packet 1 0x8000, demo_env 60000000)])) = [1, 2, 1]
   \<and> last_completed_frame (snd (run_packets demo_protocol demo_source
          [(demo_packet 1 0x8000, demo_env 20000000),
           (demo_packet 2 0x8000, demo_env 40000000),
           (demo_packet 1 0x8000, demo_env 60000000)])) = 1
   \<and> Assembled 7 \<in> set (fst (finalize_previous demo_protocol demo_recorded (demo_env 1000)))
   \<and> last_completed_frame demo_recorded \<noteq> 7
   \<and> last_completed_frame (snd (finalize_previous demo_protocol demo_recorded (demo_env 1000))) = 7
   \<and> Assembled 7 \<in> set (fst (complete_in_frame demo_protocol demo_recorded (demo_env 1000)))
   \<and> last_completed_frame (snd (complete_in_frame demo_protocol demo_recorded (demo_env 1000))) = 7
   \<and> assembled_frames (fst (finalize_previous demo_protocol demo_source (demo_env 1000))) = []
   \<and> last_completed_frame (snd (finalize_previous demo_protocol demo_source (demo_env 1000))) = 0
   \<and> assembled_frames (fst (complete_in_frame demo_protocol demo_source (demo_env 1000))) = []
   \<and> last_completed_frame (snd (complete_in_frame demo_protocol demo_source (demo_env 1000))) = 0"
proof -
  have c: "is_frame_complete (current_frame demo_recorded)"
    by (simp add: is_frame_complete_def demo_recorded_frame)
  have f: "fst (finalize_previous demo_protocol demo_recorded (demo_env 1000)) = [Assembled 7]"
    using c by (simp add: finalize_previous_def demo_recorded_frame demo_env_fields)
  have g: "fst (complete_in_frame demo_protocol demo_recorded (demo_env 1000)) = [Assembled 7]"
    using c by (simp add: complete_in_frame_def demo_recorded_frame demo_env_fields)
  have n: "\<not> is_frame_complete (current_frame demo_source)"
    by (simp add: is_frame_complete_def demo_source_fields init_frame_assembly_def)
  have h: "fst (finalize_previous demo_protocol demo_source (demo_env 1000)) = []"
    "fst (complete_in_frame demo_protocol demo_source (demo_env 1000)) = []"
    using n by (simp_all add: finalize_previous_def complete_in_frame_def demo_source_fields
        init_frame_assembly_def)
  show ?thesis
    using assembly_guarded_by_last_completed
            [of demo_source demo_protocol
                "[(demo_packet 1 0x8000, demo_env 20000000),
                  (demo_packet 2 0x8000, demo_env 40000000),
                  (demo_packet 1 0x8000, demo_env 60000000)]" 7 "demo_env 1000"]
          assembly_guarded_by_last_completed
            [of demo_recorded demo_protocol "[]" 7 "demo_env 1000"]
          demo_three_frames
    by (simp add: f g h demo_source_fields demo_recorded_frame)
qed

subsection \<open>Frame timeout\<close>

lemma new_frame_drop:
  assumes "frame_num (current_frame s) \<noteq> pkt_frame_num p"
    and "0 < received_packets (current_frame s)"
    and "\<not> is_frame_complete (current_frame s)"
    and "is_frame_timeout P (current_frame s) (t_timeout e)"
  shows "fst (new_frame P s p e) = [Dropped (frame_num (current_frame s))]"
    and "frame_drops (snd (new_frame P s p e)) = frame_drops s + 1"
    and "current_frame (snd (new_frame P s p e)) = init_frame_assembly P (pkt_frame_num p) (t_start e)"
  using assms by (simp_all add: new_frame_def finalize_previous_def Let_def)

lemma new_frame_no_drop:
  assumes "\<not> (frame_num (current_frame s) \<noteq> pkt_frame_num p
             \<and> 0 < received_packets (current_frame s)
             \<and> \<not> is_frame_complete (current_frame s)
             \<and> is_frame_timeout P (current_frame s) (t_timeout e))"
  shows "dropped_frames (fst (new_frame P s p e)) = []"
    and "frame_drops (snd (new_frame P s p e)) = frame_drops s"
  using assms by (auto simp add: new_frame_def finalize_previous_def Let_def)

lemma new_frame_table:
  "frame_num (current_frame (snd (new_frame P s p e))) = pkt_frame_num p"
  by (simp add: new_frame_def Let_def split_beta init_frame_assembly_def)

lemma accumulate_events:
  "dropped_frames (fst (accumulate P s p e)) = []"
  "frame_drops (snd (accumulate P s p e)) = frame_drops s"
  "set (assembled_frames (fst (accumulate P s p e))) \<subseteq> {frame_num (current_frame s)}"
  using complete_in_frame_cases [of P "record_packet s p" e]
  by (auto simp add: accumulate_def)

lemma record_packet_table_only:
  "current_frame s = current_frame s' \<Longrightarrow>
   current_frame (record_packet s p) = current_frame (record_packet s' p)"
  by (simp add: record_packet_def last_packet_update_def Let_def)

lemma accumulate_table_only:
  assumes "current_frame s = current_frame s'"
  shows "current_frame (snd (accumulate P s p e)) = current_frame (snd (accumulate P s' p e))"
proof -
  have r: "current_frame (record_packet s p) = current_frame (record_packet s' p)"
    using assms by (rule record_packet_table_only)
  show ?thesis
    using assms r by (simp add: accumulate_def complete_in_frame_def split_beta)
qed

lemma process_packet_skipped:
  "\<not> (valid_format P p \<and> assembly_lock e) \<Longrightarrow>
   process_packet P s p e = ([], video_statistics s (t_now e))"
  by (auto simp add: process_packet_def Let_def)

lemma process_packet_phases:
  "valid_format P p \<Longrightarrow> assembly_lock e \<Longrightarrow>
   process_packet P s p e =
     (fst (new_frame P (video_statistics s (t_now e)) p e)
        @ fst (accumulate P (snd (new_frame P (video_statistics s (t_now e)) p e)) p e),
      snd (accumulate P (snd (new_frame P (video_statistics s (t_now e)) p e)) p e))"
  by (simp add: process_packet_def Let_def split_beta)


lemma process_packet_drop_step:
  assumes "counts_drop P s p e"
  shows "frame_drops (snd (process_packet P s p e)) = frame_drops s + 1"
    and "dropped_frames (fst (process_packet P s p e)) = [frame_num (current_frame s)]"
    and "frame_num (current_frame s) \<notin> set (assembled_frames (fst (process_packet P s p e)))"
    and "current_frame (snd (process_packet P s p e))
           = current_frame (snd (accumulate P
               (s\<lparr>current_frame := init_frame_assembly P (pkt_frame_num p) (t_start e)\<rparr>) p e))"
proof -
  let ?s0 = "video_statistics s (t_now e)"
  let ?r1 = "new_frame P ?s0 p e"
  let ?r2 = "accumulate P (snd ?r1) p e"
  have v: "valid_format P p" "assembly_lock e"
    and c: "frame_num (current_frame ?s0) \<noteq> pkt_frame_num p"
      "0 < received_packets (current_frame ?s0)"
      "\<not> is_frame_complete (current_frame ?s0)"
      "is_frame_timeout P (current_frame ?s0) (t_timeout e)"
    using assms by (simp_all add: counts_drop_def)
  note nf = new_frame_drop [OF c]
  have pp: "process_packet P s p e = (fst ?r1 @ fst ?r2, snd ?r2)"
    using v by (rule process_packet_phases)
  have fn: "frame_num (current_frame (snd ?r1)) = pkt_frame_num p"
    by (rule new_frame_table)
  show "frame_drops (snd (process_packet P s p e)) = frame_drops s + 1"
    unfolding pp using nf(2) by (simp add: accumulate_events)
  show "dropped_frames (fst (process_packet P s p e)) = [frame_num (current_frame s)]"
    unfolding pp using nf(1) by (simp add: accumulate_events)
  have "set (assembled_frames (fst ?r2)) \<subseteq> {pkt_frame_num p}"
    using accumulate_events(3) [of P "snd ?r1" p e] fn by simp
  then show "frame_num (current_frame s) \<notin> set (assembled_frames (fst (process_packet P s p e)))"
    unfolding pp using nf(1) c(1) by auto
  show "current_frame (snd (process_packet P s p e))
           = current_frame (snd (accumulate P
               (s\<lparr>current_frame := init_frame_assembly P (pkt_frame_num p) (t_start e)\<rparr>) p e))"
    unfolding pp using nf(3) by (simp add: accumulate_table_only)
qed

lemma process_packet_no_drop_both:
  assumes "\<not> counts_drop P s p e"
  shows "frame_drops (snd (process_packet P s p e)) = frame_drops s
         \<and> dropped_frames (fst (process_packet P s p e)) = []"
proof (cases "valid_format P p \<and> assembly_lock e")
  case True
  let ?s0 = "video_statistics s (t_now e)"
  have n: "\<not> (frame_num (current_frame ?s0) \<noteq> pkt_frame_num p
             \<and> 0 < received_packets (current_frame ?s0)
             \<and> \<not> is_frame_complete (current_frame ?s0)
             \<and> is_frame_timeout P (current_frame ?s0) (t_timeout e))"
    using assms True by (simp add: counts_drop_def)
  have pp: "process_packet P s p e =
        (fst (new_frame P ?s0 p e) @ fst (accumulate P (snd (new_frame P ?s0 p e)) p e),
         snd (accumulate P (snd (new_frame P ?s0 p e)) p e))"
    using True by (simp add: process_packet_phases)
  show ?thesis
    unfolding pp using new_frame_no_drop [OF n] by (simp add: accumulate_events)
next
  case False
  then have pp: "process_packet P s p e = ([], video_statistics s (t_now e))"
    by (rule process_packet_skipped)
  show ?thesis unfolding pp by simp
qed

lemma process_packet_no_drop_step:
  assumes "\<not> counts_drop P s p e"
  shows "frame_drops (snd (process_packet P s p e)) = frame_drops s"
    and "dropped_frames (fst (process_packet P s p e)) = []"
  using process_packet_no_drop_both [OF assms] by simp_all

lemma process_packet_drops_counted:
  "frame_drops (snd (process_packet P s p e))
     = frame_drops s + word_of_nat (length (dropped_frames (fst (process_packet P s p e))))"
  using process_packet_drop_step(1,2) [of P s p e] process_packet_no_drop_step [of P s p e]
  by (cases "counts_drop P s p e") simp_all

lemma run_packets_drops_counted:
  "frame_drops (snd (run_packets P s pkts))
     = frame_drops s + word_of_nat (length (dropped_frames (fst (run_packets P s pkts))))"
proof (induction pkts arbitrary: s)
  case Nil
  then show ?case by simp
next
  case (Cons pe pkts)
  obtain p e where pe: "pe = (p, e)" by (cases pe)
  let ?r1 = "process_packet P s p e"
  have eq: "run_packets P s (pe # pkts)
              = (fst ?r1 @ fst (run_packets P (snd ?r1) pkts), snd (run_packets P (snd ?r1) pkts))"
    by (simp add: pe split_beta)
  show ?case
    unfolding eq using Cons.IH [of "snd ?r1"] process_packet_drops_counted [of P s p e]
    by simp
qed

text \<open>
  C6, as the code has it. The counter is kept per table, not per frame number. A pass
  increments \<^verbatim>\<open>frame_drops\<close>, by exactly one, exactly when its packet is
  accepted, belongs to another frame number, and the live table holds at least one
  packet, is not complete and is older than the budget; that pass does not assemble the
  table, and the table it leaves is what recording the packet into a fresh table of
  the packet's frame number gives, so nothing of the dropped table remains to be
  counted or assembled later. Every other pass leaves the counter as it was; over a
  run the counter grows by the number of tables dropped. An incomplete table that a
  packet of another frame number preempts before the budget has passed is discarded
  without being counted, and packets of a dropped frame number that arrive later start
  a new table.
\<close>

theorem timed_out_table_dropped_once:
  "(counts_drop P s p e \<longrightarrow>
      frame_drops (snd (process_packet P s p e)) = frame_drops s + 1
      \<and> dropped_frames (fst (process_packet P s p e)) = [frame_num (current_frame s)]
      \<and> frame_num (current_frame s) \<notin> set (assembled_frames (fst (process_packet P s p e)))
      \<and> current_frame (snd (process_packet P s p e))
           = current_frame (snd (accumulate P
               (s\<lparr>current_frame := init_frame_assembly P (pkt_frame_num p) (t_start e)\<rparr>) p e)))
   \<and> (\<not> counts_drop P s p e \<longrightarrow>
        frame_drops (snd (process_packet P s p e)) = frame_drops s
        \<and> dropped_frames (fst (process_packet P s p e)) = [])
   \<and> frame_drops (snd (run_packets P s pkts))
       = frame_drops s + word_of_nat (length (dropped_frames (fst (run_packets P s pkts))))"
  using process_packet_drop_step [of P s p e] process_packet_no_drop_step [of P s p e]
    run_packets_drops_counted [of P s pkts]
  by blast


lemma new_frame_starts_table:
  "frame_num (current_frame s) \<noteq> pkt_frame_num p \<Longrightarrow>
   current_frame (snd (new_frame P s p e)) = init_frame_assembly P (pkt_frame_num p) (t_start e)"
  by (simp add: new_frame_def Let_def split_beta)

lemma first_packet_step:
  assumes ne: "frame_num (current_frame s) \<noteq> pkt_frame_num p"
    and v: "valid_format P p" and al: "assembly_lock e"
    and b: "slot_of p < C64U_MAX_PACKETS_PER_FRAME P" and nl: "\<not> last_packet p"
  shows "frame_num (current_frame (snd (process_packet P s p e))) = pkt_frame_num p"
    and "received_packets (current_frame (snd (process_packet P s p e))) = 1"
    and "expected_packets (current_frame (snd (process_packet P s p e))) = 0"
    and "start_time (current_frame (snd (process_packet P s p e))) = t_start e"
proof -
  let ?s0 = "video_statistics s (t_now e)"
  let ?s1 = "snd (new_frame P ?s0 p e)"
  have t1: "current_frame ?s1 = init_frame_assembly P (pkt_frame_num p) (t_start e)"
    using ne by (simp add: new_frame_starts_table)
  have r: "received_packets (current_frame (record_packet ?s1 p)) = 1"
    "expected_packets (current_frame (record_packet ?s1 p)) = 0"
    using record_on_fresh_table [OF t1 b] nl by simp_all
  then have "\<not> is_frame_complete (current_frame (record_packet ?s1 p))"
    by (simp add: is_frame_complete_def)
  then have acc: "accumulate P ?s1 p e = ([], record_packet ?s1 p)"
    using b by (simp add: accumulate_def complete_in_frame_not_complete)
  have pp: "snd (process_packet P s p e) = record_packet ?s1 p"
    using process_packet_phases [OF v al, of s] acc by simp
  show "frame_num (current_frame (snd (process_packet P s p e))) = pkt_frame_num p"
    and "received_packets (current_frame (snd (process_packet P s p e))) = 1"
    and "expected_packets (current_frame (snd (process_packet P s p e))) = 0"
    and "start_time (current_frame (snd (process_packet P s p e))) = t_start e"
    unfolding pp using r t1 by (simp_all add: init_frame_assembly_def)
qed

lemma demo_first_packet_fields:
  "\<not> last_packet (demo_packet n 0)" "slot_of (demo_packet n 0) = 0"
  "\<not> last_packet (demo_packet n 4)" "slot_of (demo_packet n 4) = 1"
  by (simp_all add: last_packet_def slot_of_eq demo_packet_def pkt_line_num_def)

lemma demo_stalled_frames:
  fixes s1 s2 s3 s4 :: c64u_source
  defines "s1 \<equiv> snd (process_packet demo_protocol demo_source (demo_packet 1 0) (demo_env 1000000))"
    and "s2 \<equiv> snd (process_packet demo_protocol s1 (demo_packet 2 0) (demo_env 201000000))"
    and "s3 \<equiv> snd (process_packet demo_protocol s2 (demo_packet 1 4) (demo_env 401000000))"
  shows "\<not> counts_drop demo_protocol demo_source (demo_packet 1 0) (demo_env 1000000)"
    and "counts_drop demo_protocol s1 (demo_packet 2 0) (demo_env 201000000)"
    and "counts_drop demo_protocol s2 (demo_packet 1 4) (demo_env 401000000)"
    and "counts_drop demo_protocol s3 (demo_packet 2 4) (demo_env 601000000)"
    and "frame_num (current_frame s1) = 1"
    and "frame_num (current_frame s2) = 2"
    and "frame_num (current_frame s3) = 1"
proof -
  note ev = demo_packet_fields demo_first_packet_fields demo_env_fields demo_protocol_fields
  show n0: "\<not> counts_drop demo_protocol demo_source (demo_packet 1 0) (demo_env 1000000)"
    by (simp add: counts_drop_def demo_source_fields init_frame_assembly_def)
  have f1: "frame_num (current_frame s1) = 1" "received_packets (current_frame s1) = 1"
    "expected_packets (current_frame s1) = 0" "start_time (current_frame s1) = 1000004"
    unfolding s1_def
    using first_packet_step [of demo_source "demo_packet 1 0" demo_protocol "demo_env 1000000"]
    by (simp_all add: ev demo_source_fields init_frame_assembly_def)
  show c1: "counts_drop demo_protocol s1 (demo_packet 2 0) (demo_env 201000000)"
    by (simp add: counts_drop_def f1 ev is_frame_complete_def is_frame_timeout_def)
  have f2: "frame_num (current_frame s2) = 2" "received_packets (current_frame s2) = 1"
    "expected_packets (current_frame s2) = 0" "start_time (current_frame s2) = 201000004"
    unfolding s2_def
    using first_packet_step [of s1 "demo_packet 2 0" demo_protocol "demo_env 201000000"]
    by (simp_all add: ev f1)
  show c2: "counts_drop demo_protocol s2 (demo_packet 1 4) (demo_env 401000000)"
    by (simp add: counts_drop_def f2 ev is_frame_complete_def is_frame_timeout_def)
  have f3: "frame_num (current_frame s3) = 1" "received_packets (current_frame s3) = 1"
    "expected_packets (current_frame s3) = 0" "start_time (current_frame s3) = 401000004"
    unfolding s3_def
    using first_packet_step [of s2 "demo_packet 1 4" demo_protocol "demo_env 401000000"]
    by (simp_all add: ev f2)
  show c3: "counts_drop demo_protocol s3 (demo_packet 2 4) (demo_env 601000000)"
    by (simp add: counts_drop_def f3 ev is_frame_complete_def is_frame_timeout_def)
  show "frame_num (current_frame s1) = 1" "frame_num (current_frame s2) = 2"
    "frame_num (current_frame s3) = 1"
    by (simp_all add: f1 f2 f3)
qed

text \<open>
  C6 as stated, at most one increment per frame number and no later action on it,
  fails: with packets of frames 1, 2, 1, 2 arriving 200 ms apart, none carrying the
  last-packet flag, the late packet of frame 1 starts a second table for frame number
  1, and frame number 1 is counted as dropped twice.
\<close>

theorem dropped_twice_counterexample:
  "dropped_frames (fst (run_packets demo_protocol demo_source
          [(demo_packet 1 0, demo_env 1000000),
           (demo_packet 2 0, demo_env 201000000),
           (demo_packet 1 4, demo_env 401000000),
           (demo_packet 2 4, demo_env 601000000)]))
     = [1, 2, 1]
   \<and> frame_drops (snd (run_packets demo_protocol demo_source
          [(demo_packet 1 0, demo_env 1000000),
           (demo_packet 2 0, demo_env 201000000),
           (demo_packet 1 4, demo_env 401000000),
           (demo_packet 2 4, demo_env 601000000)])) = 3"
proof -
  have d: "dropped_frames (fst (run_packets demo_protocol demo_source
          [(demo_packet 1 0, demo_env 1000000),
           (demo_packet 2 0, demo_env 201000000),
           (demo_packet 1 4, demo_env 401000000),
           (demo_packet 2 4, demo_env 601000000)]))
     = [1, 2, 1]"
    using demo_stalled_frames
    by (simp add: split_beta process_packet_no_drop_step process_packet_drop_step)
  show ?thesis
    using d run_packets_drops_counted [of demo_protocol demo_source
          "[(demo_packet 1 0, demo_env 1000000),
           (demo_packet 2 0, demo_env 201000000),
           (demo_packet 1 4, demo_env 401000000),
           (demo_packet 2 4, demo_env 601000000)]"]
    by (simp add: demo_source_fields)
qed

theorem timed_out_table_dropped_once_witness:
  "counts_drop demo_protocol
     (snd (process_packet demo_protocol demo_source (demo_packet 1 0) (demo_env 1000000)))
     (demo_packet 2 0) (demo_env 201000000)
   \<and> frame_drops (snd (process_packet demo_protocol
        (snd (process_packet demo_protocol demo_source (demo_packet 1 0) (demo_env 1000000)))
        (demo_packet 2 0) (demo_env 201000000))) = 1
   \<and> dropped_frames (fst (process_packet demo_protocol
        (snd (process_packet demo_protocol demo_source (demo_packet 1 0) (demo_env 1000000)))
        (demo_packet 2 0) (demo_env 201000000))) = [1]
   \<and> \<not> counts_drop demo_protocol demo_source (demo_packet 1 0) (demo_env 1000000)
   \<and> frame_drops (snd (process_packet demo_protocol demo_source (demo_packet 1 0) (demo_env 1000000))) = 0
   \<and> dropped_frames (fst (process_packet demo_protocol demo_source (demo_packet 1 0) (demo_env 1000000))) = []"
  using timed_out_table_dropped_once
          [of demo_protocol
              "snd (process_packet demo_protocol demo_source (demo_packet 1 0) (demo_env 1000000))"
              "demo_packet 2 0" "demo_env 201000000" "[]"]
        timed_out_table_dropped_once
          [of demo_protocol demo_source "demo_packet 1 0" "demo_env 1000000" "[]"]
        demo_stalled_frames(1,2,5)
  by (simp add: demo_source_fields)

subsection \<open>The timing engine\<close>

lemma half_interval_le: "(x :: u64) div 2 \<le> x"
  by (simp add: word_le_nat_alt unat_div)

lemma should_deliver_paced_debt [simp]:
  "frame_debt (snd (should_deliver_paced t now)) = frame_debt t"
proof -
  have "\<not> obs_frame_interval_ns t div 2 \<le> now - last_obs_frame_time t \<Longrightarrow>
        \<not> obs_frame_interval_ns t < now - last_obs_frame_time t"
    using half_interval_le [of "obs_frame_interval_ns t"] by simp
  then show ?thesis
    by (auto simp add: should_deliver_paced_def Let_def)
qed

lemma should_deliver_debt [simp]:
  "frame_debt (snd (c64u_timing_should_deliver_frame t now)) = frame_debt t"
  by (cases "strategy t") (simp_all add: c64u_timing_should_deliver_frame_def)

lemma should_deliver_paced_counts [simp]:
  "frames_delivered (snd (should_deliver_paced t now)) = frames_delivered t"
  "strategy (snd (should_deliver_paced t now)) = strategy t"
  by (auto simp add: should_deliver_paced_def Let_def)

lemma should_deliver_counts [simp]:
  "frames_delivered (snd (c64u_timing_should_deliver_frame t now)) = frames_delivered t"
  "strategy (snd (c64u_timing_should_deliver_frame t now)) = strategy t"
  by (cases "strategy t"; simp add: c64u_timing_should_deliver_frame_def)+

lemma get_frame_debt:
  "frame_debt (snd (c64u_timing_get_frame_for_obs t s now)) =
     (if strategy t = C64U_TIMING_ADAPTIVE then
        if 2 < frame_debt t then frame_debt t - 1
        else if frame_debt t < - 2 then frame_debt t + 1
        else frame_debt t
      else frame_debt t)"
  by (cases "strategy t")
     (simp_all add: c64u_timing_get_frame_for_obs_def Let_def split: option.split)

lemma get_frame_counts [simp]:
  "frames_delivered (snd (c64u_timing_get_frame_for_obs t s now)) = frames_delivered t"
  by (cases "strategy t")
     (simp_all add: c64u_timing_get_frame_for_obs_def Let_def split: option.split)

lemma on_delivered_fields [simp]:
  "frame_debt (c64u_timing_on_obs_frame_delivered t now) = frame_debt t"
  "frames_delivered (c64u_timing_on_obs_frame_delivered t now) = frames_delivered t + 1"
  by (simp_all add: c64u_timing_on_obs_frame_delivered_def Let_def)

lemma on_received_fields [simp]:
  "frame_debt (c64u_timing_on_c64_frame_received t now) = frame_debt t"
  "frames_delivered (c64u_timing_on_c64_frame_received t now) = frames_delivered t"
  by (simp_all add: c64u_timing_on_c64_frame_received_def)

lemma timing_poll_debt:
  assumes "\<bar>frame_debt t\<bar> \<le> 2"
  shows "frame_debt (snd (snd (timing_poll t s now))) = frame_debt t"
proof -
  have "\<not> 2 < frame_debt t" "\<not> frame_debt t < - 2"
    using assms by linarith+
  then show ?thesis
    by (simp add: timing_poll_def split_beta Let_def get_frame_debt)
qed

lemma timing_step_debt:
  "\<bar>frame_debt t\<bar> \<le> 2 \<Longrightarrow> frame_debt (snd (timing_step t ev)) = frame_debt t"
  by (cases ev) (simp_all add: timing_poll_debt split_beta)

lemma timing_run_debt:
  "\<bar>frame_debt t\<bar> \<le> 2 \<Longrightarrow> frame_debt (snd (timing_run t evs)) = frame_debt t"
proof (induction evs arbitrary: t)
  case Nil
  then show ?case by simp
next
  case (Cons ev evs)
  have "\<bar>frame_debt (snd (timing_step t ev))\<bar> \<le> 2"
    using Cons.prems by (simp add: timing_step_debt)
  then show ?case
    using Cons.IH [of "snd (timing_step t ev)"] Cons.prems
    by (simp add: split_beta timing_step_debt)
qed

lemma timing_init_debt [simp]:
  "frame_debt (c64u_timing_init strat tfps sfps alloc) = 0"
  by (simp add: c64u_timing_init_def Let_def)


text \<open>
  C8. The frame debt does not run away: from an initialised timing state, of any
  strategy and any rates, it is 0 after every sequence of polls and source frames,
  whatever the clock readings, so also for the adaptive strategy with equal rates
  and polls one target interval apart. \<^verbatim>\<open>c64u_timing_should_deliver_frame\<close> never
  changes the debt: its increment by \<^verbatim>\<open>c64_rate / obs_rate - 1\<close> stands behind the
  tests for more than 10 received frames and an elapsed time above one interval, and
  is reached only with an elapsed time below half an interval. For the adaptive
  strategy \<^verbatim>\<open>c64u_timing_get_frame_for_obs\<close> steps a debt above 2 down by 1 and a
  debt below -2 up by 1, and leaves any other debt alone; a debt between -2 and 2 is
  kept by every run.
\<close>

theorem frame_debt_stays_zero:
  "frame_debt (snd (timing_run (c64u_timing_init strat tfps sfps alloc) evs)) = 0
   \<and> (\<bar>frame_debt t\<bar> \<le> 2 \<longrightarrow> frame_debt (snd (timing_run t evs)) = frame_debt t)
   \<and> frame_debt (snd (c64u_timing_should_deliver_frame t now)) = frame_debt t
   \<and> frame_debt (snd (c64u_timing_get_frame_for_obs t s now)) =
       (if strategy t = C64U_TIMING_ADAPTIVE then
          if 2 < frame_debt t then frame_debt t - 1
          else if frame_debt t < - 2 then frame_debt t + 1
          else frame_debt t
        else frame_debt t)"
proof -
  have "frame_debt (snd (timing_run (c64u_timing_init strat tfps sfps alloc) evs))
          = frame_debt (c64u_timing_init strat tfps sfps alloc)"
    by (rule timing_run_debt) simp
  then have a: "frame_debt (snd (timing_run (c64u_timing_init strat tfps sfps alloc) evs)) = 0"
    by simp
  show ?thesis
    using a timing_run_debt [of t evs] should_deliver_debt [of t now] get_frame_debt [of t s now]
    by blast
qed

lemma demo_timing_fields:
  "strategy demo_timing = C64U_TIMING_ADAPTIVE"
  "target_fps demo_timing = 50" "source_fps demo_timing = 50"
  "obs_frame_interval_ns demo_timing = 20000000"
  "frame_debt demo_timing = 0" "frames_delivered demo_timing = 0"
  "frames_received demo_timing = 0" "last_obs_frame_time demo_timing = 0"
  by (simp_all add: demo_timing_def c64u_timing_init_def Let_def)

theorem frame_debt_stays_zero_witness:
  "strategy demo_timing = C64U_TIMING_ADAPTIVE
   \<and> target_fps demo_timing = source_fps demo_timing
   \<and> obs_frame_interval_ns demo_timing = 20000000
   \<and> \<bar>frame_debt demo_timing\<bar> \<le> 2
   \<and> frame_debt (snd (timing_run demo_timing
         [Poll 20000000 demo_source, SourceFrame 30000000, Poll 40000000 demo_source,
          Poll 60000000 demo_source, Poll 80000000 demo_source])) = 0"
  using frame_debt_stays_zero
          [of C64U_TIMING_ADAPTIVE 50 50 "\<lambda>i. None"
              "[Poll 20000000 demo_source, SourceFrame 30000000, Poll 40000000 demo_source,
                Poll 60000000 demo_source, Poll 80000000 demo_source]"
              demo_timing 0 demo_source]
  by (simp add: demo_timing_fields)

lemma should_deliver_first_ten:
  "frames_delivered t < 10 \<Longrightarrow> fst (c64u_timing_should_deliver_frame t now)"
  by (cases "strategy t")
     (simp_all add: c64u_timing_should_deliver_frame_def should_deliver_paced_def)

lemma should_deliver_few_received:
  "frames_received t < 5 \<or> last_obs_frame_time t = 0 \<Longrightarrow>
   fst (c64u_timing_should_deliver_frame t now)"
  by (cases "strategy t")
     (auto simp add: c64u_timing_should_deliver_frame_def should_deliver_paced_def)

lemma should_deliver_otherwise:
  "strategy t \<noteq> C64U_TIMING_PASSTHROUGH \<Longrightarrow> \<not> frames_delivered t < 10 \<Longrightarrow>
   \<not> frames_received t < 5 \<Longrightarrow> last_obs_frame_time t \<noteq> 0 \<Longrightarrow>
   fst (c64u_timing_should_deliver_frame t now) =
     (obs_frame_interval_ns t div 2 \<le> now - last_obs_frame_time t
      \<or> ucast (frames_delivered t) \<le> (now - last_obs_frame_time t) div obs_frame_interval_ns t)"
  by (cases "strategy t")
     (auto simp add: c64u_timing_should_deliver_frame_def should_deliver_paced_def Let_def)

lemma timing_poll_delivered:
  "unat (frames_delivered (snd (snd (timing_poll t s now)))) \<le> unat (frames_delivered t) + 1"
proof -
  have "unat (frames_delivered t + 1) \<le> unat (frames_delivered t) + 1"
    by (simp add: unat_word_ariths)
  then show ?thesis
    by (simp add: timing_poll_def split_beta Let_def)
qed

lemma timing_poll_first_ten:
  "frames_delivered t < 10 \<Longrightarrow> fst (timing_poll t s now)"
  by (simp add: timing_poll_def split_beta Let_def should_deliver_first_ten)

lemma first_polls_deliver:
  "unat (frames_delivered t) + n \<le> 10 \<Longrightarrow>
   take n (fst (timing_run t evs)) = replicate (min n (length (fst (timing_run t evs)))) True"
proof (induction evs arbitrary: t n)
  case Nil
  then show ?case by simp
next
  case (Cons ev evs)
  show ?case
  proof (cases ev)
    case (Poll now s)
    show ?thesis
    proof (cases n)
      case 0
      then show ?thesis by simp
    next
      case (Suc m)
      let ?t1 = "snd (snd (timing_poll t s now))"
      have "unat (frames_delivered t) < 10" using Cons.prems Suc by simp
      then have "frames_delivered t < 10" by (simp add: word_less_nat_alt)
      then have d: "fst (timing_poll t s now)" by (rule timing_poll_first_ten)
      have "unat (frames_delivered ?t1) + m \<le> 10"
        using timing_poll_delivered [of t s now] Cons.prems Suc by simp
      then have ih: "take m (fst (timing_run ?t1 evs))
                       = replicate (min m (length (fst (timing_run ?t1 evs)))) True"
        by (rule Cons.IH)
      show ?thesis
        using d ih by (simp add: Poll Suc split_beta)
    qed
  next
    case (SourceFrame now)
    have "unat (frames_delivered (c64u_timing_on_c64_frame_received t now)) + n \<le> 10"
      using Cons.prems by simp
    then show ?thesis
      using Cons.IH [of "c64u_timing_on_c64_frame_received t now" n]
      by (simp add: SourceFrame split_beta)
  qed
qed

text \<open>
  C7. For a strategy other than passthrough, \<^verbatim>\<open>c64u_timing_should_deliver_frame\<close>
  answers true while fewer than 10 frames have been delivered, whatever the clock
  reading; it answers true when fewer than 5 source frames have been received or no
  delivery time is recorded; otherwise it answers true exactly when the time since the
  last delivery is at least half the target interval or the number of frames delivered
  is at most the number of whole target intervals in that time. Since a poll records
  at most one delivery, the first 10 polls of a timing state with no delivery yet are
  all answered true.
\<close>

theorem should_deliver_policy:
  "(strategy t \<noteq> C64U_TIMING_PASSTHROUGH \<longrightarrow>
      (frames_delivered t < 10 \<longrightarrow> fst (c64u_timing_should_deliver_frame t now))
      \<and> (frames_received t < 5 \<or> last_obs_frame_time t = 0 \<longrightarrow>
           fst (c64u_timing_should_deliver_frame t now))
      \<and> (\<not> frames_delivered t < 10 \<and> \<not> frames_received t < 5 \<and> last_obs_frame_time t \<noteq> 0 \<longrightarrow>
           fst (c64u_timing_should_deliver_frame t now) =
             (obs_frame_interval_ns t div 2 \<le> now - last_obs_frame_time t
              \<or> ucast (frames_delivered t)
                   \<le> (now - last_obs_frame_time t) div obs_frame_interval_ns t)))
   \<and> (frames_delivered t = 0 \<longrightarrow>
        take 10 (fst (timing_run t evs)) = replicate (min 10 (length (fst (timing_run t evs)))) True)"
proof -
  have "frames_delivered t = 0 \<longrightarrow>
        take 10 (fst (timing_run t evs)) = replicate (min 10 (length (fst (timing_run t evs)))) True"
    using first_polls_deliver [of t 10 evs] by simp
  then show ?thesis
    using should_deliver_first_ten [of t now] should_deliver_few_received [of t now]
      should_deliver_otherwise [of t now]
    by blast
qed


lemma demo_timing_running_fields:
  "strategy demo_timing_running = C64U_TIMING_ADAPTIVE"
  "obs_frame_interval_ns demo_timing_running = 20000000"
  "frames_delivered demo_timing_running = 12"
  "frames_received demo_timing_running = 20"
  "last_obs_frame_time demo_timing_running = 1000"
  by (simp_all add: demo_timing_running_def demo_timing_fields)

theorem should_deliver_policy_witness:
  "strategy demo_timing \<noteq> C64U_TIMING_PASSTHROUGH
   \<and> frames_delivered demo_timing < 10
   \<and> fst (c64u_timing_should_deliver_frame demo_timing 5001000)
   \<and> frames_delivered demo_timing = 0
   \<and> take 10 (fst (timing_run demo_timing
         [Poll 1000 demo_source, Poll 2000 demo_source, SourceFrame 2500, Poll 3000 demo_source]))
       = replicate (min 10 (length (fst (timing_run demo_timing
         [Poll 1000 demo_source, Poll 2000 demo_source, SourceFrame 2500, Poll 3000 demo_source])))) True
   \<and> strategy (demo_timing_running\<lparr>frames_received := 3\<rparr>) \<noteq> C64U_TIMING_PASSTHROUGH
   \<and> frames_received (demo_timing_running\<lparr>frames_received := 3\<rparr>) < 5
   \<and> fst (c64u_timing_should_deliver_frame (demo_timing_running\<lparr>frames_received := 3\<rparr>) 5001000)
   \<and> strategy demo_timing_running \<noteq> C64U_TIMING_PASSTHROUGH
   \<and> \<not> frames_delivered demo_timing_running < 10
   \<and> \<not> frames_received demo_timing_running < 5
   \<and> last_obs_frame_time demo_timing_running \<noteq> 0
   \<and> \<not> fst (c64u_timing_should_deliver_frame demo_timing_running 5001000)
   \<and> fst (c64u_timing_should_deliver_frame demo_timing_running 10001000)"
  using should_deliver_policy
          [of demo_timing 5001000
              "[Poll 1000 demo_source, Poll 2000 demo_source, SourceFrame 2500, Poll 3000 demo_source]"]
        should_deliver_policy [of "demo_timing_running\<lparr>frames_received := 3\<rparr>" 5001000 "[]"]
        should_deliver_policy [of demo_timing_running 5001000 "[]"]
        should_deliver_policy [of demo_timing_running 10001000 "[]"]
  by (simp add: demo_timing_fields demo_timing_running_fields)

end
